theory Spec2Isabelle
  imports
    Main
    "HOL-Library.Log_Nat"
    "HOL-Library.List_Lexorder"
    "HOL-Library.Product_Lexorder"
begin

section \<open>Python values used by the sales analytics system\<close>

subsection \<open>Errors\<close>

datatype py_error = ValueError | ZeroDivisionError | AttributeError | OverflowError

subsection \<open>Floats\<close>

text \<open>
  A Python \<^verbatim>\<open>float\<close> is an IEEE binary64 number: a finite number, given here by its
  exact rational value, one of the two infinities, or \<^verbatim>\<open>nan\<close>. The two zeros are one
  value: they compare equal, and no arithmetic result of this program depends on the sign
  of a zero.
\<close>

datatype pyfloat = Fin rat | PInf | NInf | NaN

definition round_half_even :: "rat \<Rightarrow> int" where
  "round_half_even x =
     (let f = \<lfloor>x\<rfloor>; d = x - of_int f
      in if d < 1 / 2 then f else if 1 / 2 < d then f + 1
         else if even f then f else f + 1)"

text \<open>\<open>ilog2 x\<close> is the integer \<open>k\<close> with \<open>2^k \<le> |x| < 2^(k+1)\<close>, for \<open>x \<noteq> 0\<close>.\<close>

definition ilog2 :: "rat \<Rightarrow> int" where
  "ilog2 x =
     (case quotient_of \<bar>x\<bar> of (p, q) \<Rightarrow>
        let e0 = bitlen p - bitlen q
        in if 2 powi e0 \<le> \<bar>x\<bar> then e0 else e0 - 1)"

text \<open>
  Rounding to nearest, ties to even: a significand of 53 bits, and the spacing
  \<open>2^-1074\<close> of the subnormal numbers as the finest one. The result can exceed the
  largest float; the operations below turn that into an infinity or an error.
\<close>

definition round_nearest :: "rat \<Rightarrow> rat" where
  "round_nearest x =
     (if x = 0 then 0
      else let e = max (ilog2 x - 52) (- 1074)
           in of_int (round_half_even (x / 2 powi e)) * 2 powi e)"

text \<open>\<open>\<bar>r\<bar> \<ge> 2^1024\<close>: beyond the largest float.\<close>

definition exceeds_float_range :: "rat \<Rightarrow> bool" where
  "exceeds_float_range r \<longleftrightarrow> r \<noteq> 0 \<and> 1024 \<le> ilog2 r"

definition rnd :: "rat \<Rightarrow> pyfloat" where
  "rnd x =
     (let r = round_nearest x
      in if exceeds_float_range r then (if 0 < r then PInf else NInf) else Fin r)"

text \<open>
  The order of the floats other than \<^verbatim>\<open>nan\<close>. Every comparison with \<^verbatim>\<open>nan\<close> is
  false. Python compares a float with an \<^verbatim>\<open>int\<close> exactly, so the \<^verbatim>\<open>int\<close> 0 in a
  comparison is \<open>Fin 0\<close>.
\<close>

fun float_rank :: "pyfloat \<Rightarrow> int \<times> rat" where
  "float_rank NInf = (- 1, 0)"
| "float_rank (Fin x) = (0, x)"
| "float_rank PInf = (1, 0)"
| "float_rank NaN = (0, 0)"

definition flt :: "pyfloat \<Rightarrow> pyfloat \<Rightarrow> bool" where
  "flt a b \<longleftrightarrow> a \<noteq> NaN \<and> b \<noteq> NaN \<and> float_rank a < float_rank b"

definition fle :: "pyfloat \<Rightarrow> pyfloat \<Rightarrow> bool" where
  "fle a b \<longleftrightarrow> a \<noteq> NaN \<and> b \<noteq> NaN \<and> float_rank a \<le> float_rank b"

fun fadd :: "pyfloat \<Rightarrow> pyfloat \<Rightarrow> pyfloat" where
  "fadd NaN b = NaN"
| "fadd a NaN = NaN"
| "fadd PInf NInf = NaN"
| "fadd NInf PInf = NaN"
| "fadd PInf b = PInf"
| "fadd a PInf = PInf"
| "fadd NInf b = NInf"
| "fadd a NInf = NInf"
| "fadd (Fin a) (Fin b) = rnd (a + b)"

fun fmul :: "pyfloat \<Rightarrow> pyfloat \<Rightarrow> pyfloat" where
  "fmul NaN b = NaN"
| "fmul a NaN = NaN"
| "fmul (Fin a) (Fin b) = rnd (a * b)"
| "fmul (Fin a) PInf = (if a = 0 then NaN else if 0 < a then PInf else NInf)"
| "fmul (Fin a) NInf = (if a = 0 then NaN else if 0 < a then NInf else PInf)"
| "fmul PInf (Fin b) = (if b = 0 then NaN else if 0 < b then PInf else NInf)"
| "fmul NInf (Fin b) = (if b = 0 then NaN else if 0 < b then NInf else PInf)"
| "fmul PInf PInf = PInf"
| "fmul PInf NInf = NInf"
| "fmul NInf PInf = NInf"
| "fmul NInf NInf = PInf"

text \<open>Float division raises \<^verbatim>\<open>ZeroDivisionError\<close> on a zero divisor, whatever the dividend.\<close>

fun fdiv :: "pyfloat \<Rightarrow> pyfloat \<Rightarrow> py_error + pyfloat" where
  "fdiv a (Fin b) =
     (if b = 0 then Inl ZeroDivisionError
      else case a of
             Fin x \<Rightarrow> Inr (rnd (x / b))
           | PInf \<Rightarrow> Inr (if 0 < b then PInf else NInf)
           | NInf \<Rightarrow> Inr (if 0 < b then NInf else PInf)
           | NaN \<Rightarrow> Inr NaN)"
| "fdiv NaN b = Inr NaN"
| "fdiv a NaN = Inr NaN"
| "fdiv (Fin x) b = Inr (Fin 0)"
| "fdiv a b = Inr NaN"

text \<open>
  The conversion \<^verbatim>\<open>float(n)\<close> that \<^verbatim>\<open>int * float\<close> performs on its left operand.
  An \<^verbatim>\<open>int\<close> beyond the range of the floats raises \<^verbatim>\<open>OverflowError\<close>.
\<close>

definition int_overflows :: "int \<Rightarrow> bool" where
  "int_overflows n \<longleftrightarrow> exceeds_float_range (round_nearest (of_int n))"

definition float_of_int :: "int \<Rightarrow> py_error + pyfloat" where
  "float_of_int n =
     (if int_overflows n then Inl OverflowError else Inr (Fin (round_nearest (of_int n))))"

text \<open>
  \<^verbatim>\<open>round(x, 2)\<close>: the exact value of a finite \<open>x\<close> is rounded to two decimals, ties
  to even, and the decimal result is converted back to the nearest float; an infinity
  and \<^verbatim>\<open>nan\<close> are returned as they are.
\<close>

fun py_round2 :: "pyfloat \<Rightarrow> pyfloat" where
  "py_round2 (Fin x) = rnd (of_int (round_half_even (x * 100)) / 100)"
| "py_round2 a = a"

subsection \<open>Strings\<close>

text \<open>
  A Python \<^verbatim>\<open>str\<close> is a sequence of Unicode code points. \<open>ustr\<close> gives the code
  points of a literal of ASCII characters. Strings are compared code point by code point.
\<close>

type_synonym pystr = "nat list"

definition ustr :: "string \<Rightarrow> pystr" where
  "ustr s = map of_char s"

text \<open>\<^verbatim>\<open>s.startswith(p)\<close>\<close>

definition startswith :: "pystr \<Rightarrow> pystr \<Rightarrow> bool" where
  "startswith s p = (take (length p) s = p)"

subsection \<open>What the interpreter provides\<close>

text \<open>
  Three things depend on the Python interpreter and are parameters of the model: the digit
  value of a code point outside ASCII that is a decimal digit in the interpreter's Unicode
  database (category Nd; \<open>None\<close> for any other code point), the limit on the number of
  digits that \<^verbatim>\<open>int()\<close> converts (4300 by default, 0 for no limit, absent from older
  versions, which behave as with 0), and the text that \<^verbatim>\<open>str\<close> gives for a float.
\<close>

record runtime =
  unicode_decimal :: "nat \<Rightarrow> nat option"
  int_max_str_digits :: nat
  str_float :: "pyfloat \<Rightarrow> pystr"

subsection \<open>Loops that can raise\<close>

text \<open>
  A loop, a list comprehension with a condition and a list comprehension whose body can
  raise: the first exception ends them.
\<close>

fun fold_raise :: "('s \<Rightarrow> 'a \<Rightarrow> py_error + 's) \<Rightarrow> 'a list \<Rightarrow> 's \<Rightarrow> py_error + 's" where
  "fold_raise step [] s = Inr s"
| "fold_raise step (x # xs) s =
     (case step s x of Inl e \<Rightarrow> Inl e | Inr s' \<Rightarrow> fold_raise step xs s')"

fun filter_raise :: "('a \<Rightarrow> py_error + bool) \<Rightarrow> 'a list \<Rightarrow> py_error + 'a list" where
  "filter_raise cond [] = Inr []"
| "filter_raise cond (x # xs) =
     (case cond x of
        Inl e \<Rightarrow> Inl e
      | Inr keep \<Rightarrow>
          (case filter_raise cond xs of
             Inl e \<Rightarrow> Inl e
           | Inr ys \<Rightarrow> Inr (if keep then x # ys else ys)))"

fun map_raise :: "('a \<Rightarrow> py_error + 'b) \<Rightarrow> 'a list \<Rightarrow> py_error + 'b list" where
  "map_raise f [] = Inr []"
| "map_raise f (x # xs) =
     (case f x of
        Inl e \<Rightarrow> Inl e
      | Inr y \<Rightarrow> (case map_raise f xs of Inl e \<Rightarrow> Inl e | Inr ys \<Rightarrow> Inr (y # ys)))"

section \<open>Transactions\<close>

text \<open>
  \<^verbatim>\<open>parse_transactions\<close> builds every transaction as a dictionary with the same
  eight keys, \<^verbatim>\<open>Quantity\<close> an \<^verbatim>\<open>int\<close> and \<^verbatim>\<open>UnitPrice\<close> a \<^verbatim>\<open>float\<close>
  (any float that \<^verbatim>\<open>float()\<close> reads, \<^verbatim>\<open>nan\<close> and \<^verbatim>\<open>inf\<close> among them). The
  dictionary is a record; the defaults of \<^verbatim>\<open>tx.get(key, default)\<close> are never used,
  since every key is present.
\<close>

record transaction =
  TransactionID :: pystr
  Date :: pystr
  ProductID :: pystr
  ProductName :: pystr
  Quantity :: int
  UnitPrice :: pyfloat
  CustomerID :: pystr
  Region :: pystr

text \<open>The expression \<^verbatim>\<open>tx["Quantity"] * tx["UnitPrice"]\<close>, an \<^verbatim>\<open>int\<close> times a \<^verbatim>\<open>float\<close>.\<close>

definition amount :: "'a transaction_scheme \<Rightarrow> py_error + pyfloat" where
  "amount tx =
     (case float_of_int (Quantity tx) of
        Inl e \<Rightarrow> Inl e
      | Inr q \<Rightarrow> Inr (fmul q (UnitPrice tx)))"

text \<open>
  An amount is used after it has been computed: \<open>with_amount tx f\<close> raises what the
  product raises and continues with \<open>f\<close> otherwise.
\<close>

definition with_amount :: "'a transaction_scheme \<Rightarrow> (pyfloat \<Rightarrow> 'b) \<Rightarrow> py_error + 'b" where
  "with_amount tx f = (case amount tx of Inl e \<Rightarrow> Inl e | Inr a \<Rightarrow> Inr (f a))"

section \<open>Validator and filter (file\_handler.py)\<close>

record filter_summary =
  total_input :: int
  invalid :: int
  filtered_by_region :: int
  filtered_by_amount :: int
  final_count :: int

text \<open>The condition of Step 1 under which a record is counted as invalid and skipped.\<close>

definition is_invalid :: "transaction \<Rightarrow> bool" where
  "is_invalid tx \<longleftrightarrow>
     Quantity tx \<le> 0
     \<or> fle (UnitPrice tx) (Fin 0)
     \<or> \<not> startswith (TransactionID tx) (ustr ''T'')
     \<or> \<not> startswith (ProductID tx) (ustr ''P'')
     \<or> \<not> startswith (CustomerID tx) (ustr ''C'')"

text \<open>The loop of Step 1, with its two accumulators.\<close>

fun validation_loop ::
  "transaction list \<Rightarrow> int \<Rightarrow> transaction list \<Rightarrow> int \<times> transaction list" where
  "validation_loop [] invalid_count valid_transactions = (invalid_count, valid_transactions)"
| "validation_loop (tx # txs) invalid_count valid_transactions =
     (if is_invalid tx then validation_loop txs (invalid_count + 1) valid_transactions
      else validation_loop txs invalid_count (valid_transactions @ [tx]))"

text \<open>
  The truth value of the optional \<^verbatim>\<open>region\<close> argument in \<^verbatim>\<open>if region:\<close>:
  \<^verbatim>\<open>None\<close> and the empty string are false.
\<close>

fun region_given :: "pystr option \<Rightarrow> bool" where
  "region_given None = False"
| "region_given (Some r) = (r \<noteq> [])"

text \<open>
  \<^verbatim>\<open>validate_and_filter(transactions, region, min_amount, max_amount)\<close>. Step 2, which
  prints the regions, is left out. Step 3 computes the amounts of the valid transactions
  and prints their range: the amounts are computed here, since the product can raise, and
  the printing is left out. An amount bound is a number; Python compares an \<^verbatim>\<open>int\<close>
  bound with a float amount exactly, so it is the \<open>Fin\<close> of its value.
\<close>

definition validate_and_filter ::
  "transaction list \<Rightarrow> pystr option \<Rightarrow> pyfloat option \<Rightarrow> pyfloat option
     \<Rightarrow> py_error + (transaction list \<times> int \<times> filter_summary)" where
  "validate_and_filter transactions region min_amount max_amount =
     (let total = int (length transactions);
          (invalid_count, valid0) = validation_loop transactions 0 []
      in case map_raise amount valid0 of
           Inl e \<Rightarrow> Inl e
         | Inr amounts \<Rightarrow>
     (let valid1 = (if region_given region
                    then filter (\<lambda>tx. Some (Region tx) = region) valid0 else valid0);
          by_region = (if region_given region
                       then int (length valid0) - int (length valid1) else 0)
      in case (case min_amount of
                 None \<Rightarrow> Inr valid1
               | Some lo \<Rightarrow> filter_raise (\<lambda>tx. with_amount tx (\<lambda>a. fle lo a)) valid1) of
           Inl e \<Rightarrow> Inl e
         | Inr valid2 \<Rightarrow>
     (let by_amount1 = (case min_amount of
                          None \<Rightarrow> 0
                        | Some lo \<Rightarrow> 0 + (int (length valid1) - int (length valid2)))
      in case (case max_amount of
                 None \<Rightarrow> Inr valid2
               | Some hi \<Rightarrow> filter_raise (\<lambda>tx. with_amount tx (\<lambda>a. fle a hi)) valid2) of
           Inl e \<Rightarrow> Inl e
         | Inr valid3 \<Rightarrow>
     (let by_amount2 = (case max_amount of
                          None \<Rightarrow> by_amount1
                        | Some hi \<Rightarrow> by_amount1 + (int (length valid2) - int (length valid3)))
      in Inr (valid3, invalid_count,
              \<lparr>total_input = total, invalid = invalid_count,
               filtered_by_region = by_region, filtered_by_amount = by_amount2,
               final_count = int (length valid3)\<rparr>)))))"

section \<open>Dictionaries and sorting\<close>

text \<open>
  A Python \<^verbatim>\<open>dict\<close> iterates in insertion order, and the rankings depend on that
  order, so a dictionary is an association list with distinct keys. \<open>dict_upsert k d f\<close>
  is the idiom
  \<^verbatim>\<open>if k not in stats: stats[k] = d\<close> followed by updates of \<^verbatim>\<open>stats[k]\<close>
  (also the access to a \<^verbatim>\<open>defaultdict\<close>): a new key
  goes to the end, a known key keeps its place.
\<close>

fun dict_upsert :: "'k \<Rightarrow> 'v \<Rightarrow> ('v \<Rightarrow> 'v) \<Rightarrow> ('k \<times> 'v) list \<Rightarrow> ('k \<times> 'v) list" where
  "dict_upsert k d f [] = [(k, f d)]"
| "dict_upsert k d f ((k', v) # kvs) =
     (if k' = k then (k', f v) # kvs else (k', v) # dict_upsert k d f kvs)"

text \<open>
  \<^verbatim>\<open>sorted(xs, key=key, reverse=True)\<close> for keys that are totally ordered: a stable
  sort into descending key order, in which elements with equal keys keep their order.
  \<^verbatim>\<open>sorted(xs, key=key)\<close> is the library's stable \<^const>\<open>sort_key\<close>.
\<close>

fun insort_desc :: "('a \<Rightarrow> 'k::linorder) \<Rightarrow> 'a \<Rightarrow> 'a list \<Rightarrow> 'a list" where
  "insort_desc key x [] = [x]"
| "insort_desc key x (y # ys) =
     (if key y \<le> key x then x # y # ys else y # insort_desc key x ys)"

definition sort_desc :: "('a \<Rightarrow> 'k::linorder) \<Rightarrow> 'a list \<Rightarrow> 'a list" where
  "sort_desc key xs = foldr (insort_desc key) xs []"

text \<open>
  The same with float keys. Floats other than \<^verbatim>\<open>nan\<close> are totally ordered. With a
  \<^verbatim>\<open>nan\<close> among the keys every comparison with it is false and the order of the
  result depends on the steps of the interpreter's sorting algorithm, which is not
  modelled: the result is \<open>None\<close> then.
\<close>

definition sorted_reverse_float :: "('a \<Rightarrow> pyfloat) \<Rightarrow> 'a list \<Rightarrow> 'a list option" where
  "sorted_reverse_float key xs =
     (if \<exists>x \<in> set xs. key x = NaN then None
      else Some (sort_desc (\<lambda>x. float_rank (key x)) xs))"

text \<open>The slice \<^verbatim>\<open>xs[:n]\<close>; a negative \<open>n\<close> counts from the end.\<close>

definition slice_to :: "'a list \<Rightarrow> int \<Rightarrow> 'a list" where
  "slice_to xs n =
     (if 0 \<le> n then take (nat n) xs else take (nat (int (length xs) + n)) xs)"

text \<open>
  \<^verbatim>\<open>max(xs, key=key)\<close> raises \<^verbatim>\<open>ValueError\<close> on an empty sequence. Otherwise it
  keeps the first element and replaces it by a later one whose key is greater, which is
  decided by the comparison \<open>lt\<close> of the keys.
\<close>

fun py_max :: "('k \<Rightarrow> 'k \<Rightarrow> bool) \<Rightarrow> ('a \<Rightarrow> 'k) \<Rightarrow> 'a list \<Rightarrow> py_error + 'a" where
  "py_max lt key [] = Inl ValueError"
| "py_max lt key (x # xs) =
     Inr (foldl (\<lambda>best y. if lt (key best) (key y) then y else best) x xs)"

section \<open>Aggregation engine (data\_processor.py)\<close>

definition calculate_total_revenue :: "'a transaction_scheme list \<Rightarrow> py_error + pyfloat" where
  "calculate_total_revenue transactions =
     fold_raise (\<lambda>total tx. with_amount tx (\<lambda>a. fadd total a)) transactions (Fin 0)"

record region_stat =
  total_sales :: pyfloat
  transaction_count :: int
  percentage :: pyfloat

text \<open>Step 1 of \<^verbatim>\<open>region_wise_sales\<close>: the totals per region.\<close>

definition region_totals ::
  "'a transaction_scheme list \<Rightarrow> py_error + (pystr \<times> region_stat) list" where
  "region_totals transactions =
     fold_raise (\<lambda>region_stats tx. with_amount tx (\<lambda>a.
        dict_upsert (Region tx)
          \<lparr>total_sales = Fin 0, transaction_count = 0, percentage = Fin 0\<rparr>
          (\<lambda>stats. stats\<lparr>total_sales := fadd (total_sales stats) a,
                         transaction_count := transaction_count stats + 1\<rparr>)
          region_stats)) transactions []"

text \<open>
  Step 2 for one region: the percentage is set only if the total revenue is greater
  than 0. The \<^verbatim>\<open>int\<close> 100 converts to the float 100.
\<close>

definition set_percentage ::
  "pyfloat \<Rightarrow> pystr \<times> region_stat \<Rightarrow> py_error + pystr \<times> region_stat" where
  "set_percentage total_revenue = (\<lambda>(region, stats).
     if flt (Fin 0) total_revenue
     then (case fdiv (total_sales stats) total_revenue of
             Inl e \<Rightarrow> Inl e
           | Inr ratio \<Rightarrow>
               Inr (region, stats\<lparr>percentage := py_round2 (fmul ratio (Fin 100))\<rparr>))
     else Inr (region, stats))"

text \<open>
  \<^verbatim>\<open>region_wise_sales\<close>. The result is \<open>None\<close> where the final sort is not
  modelled, and otherwise the exception raised or the dictionary returned.
\<close>

definition region_wise_sales ::
  "'a transaction_scheme list \<Rightarrow> (py_error + (pystr \<times> region_stat) list) option" where
  "region_wise_sales transactions =
     (case calculate_total_revenue transactions of
        Inl e \<Rightarrow> Some (Inl e)
      | Inr total_revenue \<Rightarrow>
     (case region_totals transactions of
        Inl e \<Rightarrow> Some (Inl e)
      | Inr region_stats \<Rightarrow>
     (case map_raise (set_percentage total_revenue) region_stats of
        Inl e \<Rightarrow> Some (Inl e)
      | Inr with_percentage \<Rightarrow>
          map_option Inr
            (sorted_reverse_float (\<lambda>(region, stats). total_sales stats) with_percentage))))"

record product_stat =
  total_qty :: int
  total_revenue :: pyfloat

text \<open>
  Step 1 of \<^verbatim>\<open>top_selling_products\<close> and of \<^verbatim>\<open>low_performing_products\<close> (the
  same loop in both): the totals per product name.
\<close>

definition product_totals ::
  "'a transaction_scheme list \<Rightarrow> py_error + (pystr \<times> product_stat) list" where
  "product_totals transactions =
     fold_raise (\<lambda>product_stats tx. with_amount tx (\<lambda>a.
        dict_upsert (ProductName tx)
          \<lparr>total_qty = 0, total_revenue = Fin 0\<rparr>
          (\<lambda>stats. stats\<lparr>total_qty := total_qty stats + Quantity tx,
                         total_revenue := fadd (total_revenue stats) a\<rparr>)
          product_stats)) transactions []"

definition top_selling_products ::
  "'a transaction_scheme list \<Rightarrow> int \<Rightarrow> py_error + (pystr \<times> int \<times> pyfloat) list" where
  "top_selling_products transactions n =
     (case product_totals transactions of
        Inl e \<Rightarrow> Inl e
      | Inr product_stats \<Rightarrow>
          (let sorted_products =
                 sort_desc (\<lambda>(product, stats). total_qty stats) product_stats
           in Inr (map (\<lambda>(product, stats). (product, total_qty stats, total_revenue stats))
                     (slice_to sorted_products n))))"

text \<open>The call \<^verbatim>\<open>top_selling_products(transactions)\<close>, with the default \<^verbatim>\<open>n=5\<close>.\<close>

definition top_selling_products_default ::
  "'a transaction_scheme list \<Rightarrow> py_error + (pystr \<times> int \<times> pyfloat) list" where
  "top_selling_products_default transactions = top_selling_products transactions 5"

text \<open>
  \<^verbatim>\<open>daily_sales_trend\<close> collects the customers of a day in a set and replaces the
  set by its size in Step 2, so the accumulated and the returned statistics are two records.
\<close>

record daily_acc =
  acc_revenue :: pyfloat
  acc_transaction_count :: int
  acc_unique_customers :: "pystr set"

record daily_stat =
  revenue :: pyfloat
  day_transaction_count :: int
  unique_customers :: int

definition daily_totals ::
  "'a transaction_scheme list \<Rightarrow> py_error + (pystr \<times> daily_acc) list" where
  "daily_totals transactions =
     fold_raise (\<lambda>daily_stats tx. with_amount tx (\<lambda>a.
        dict_upsert (Date tx)
          \<lparr>acc_revenue = Fin 0, acc_transaction_count = 0, acc_unique_customers = {}\<rparr>
          (\<lambda>stats. stats\<lparr>acc_revenue := fadd (acc_revenue stats) a,
                         acc_transaction_count := acc_transaction_count stats + 1,
                         acc_unique_customers :=
                           insert (CustomerID tx) (acc_unique_customers stats)\<rparr>)
          daily_stats)) transactions []"

definition daily_sales_trend ::
  "'a transaction_scheme list \<Rightarrow> py_error + (pystr \<times> daily_stat) list" where
  "daily_sales_trend transactions =
     (case daily_totals transactions of
        Inl e \<Rightarrow> Inl e
      | Inr daily_stats \<Rightarrow>
          Inr (sort_key fst
                 (map (\<lambda>(date, stats).
                        (date, \<lparr>revenue = acc_revenue stats,
                                day_transaction_count = acc_transaction_count stats,
                                unique_customers =
                                  int (card (acc_unique_customers stats))\<rparr>))
                    daily_stats)))"

definition find_peak_sales_day ::
  "'a transaction_scheme list \<Rightarrow> py_error + (pystr \<times> pyfloat \<times> int)" where
  "find_peak_sales_day transactions =
     (case daily_sales_trend transactions of
        Inl e \<Rightarrow> Inl e
      | Inr daily_stats \<Rightarrow>
          (case py_max flt (\<lambda>(date, stats). revenue stats) daily_stats of
             Inl e \<Rightarrow> Inl e
           | Inr (peak_date, peak_data) \<Rightarrow>
               Inr (peak_date, revenue peak_data, day_transaction_count peak_data)))"

definition low_performing_products ::
  "'a transaction_scheme list \<Rightarrow> int \<Rightarrow> py_error + (pystr \<times> int \<times> pyfloat) list" where
  "low_performing_products transactions threshold =
     (case product_totals transactions of
        Inl e \<Rightarrow> Inl e
      | Inr product_stats \<Rightarrow>
          (let low_products =
                 map (\<lambda>(product, stats). (product, total_qty stats, total_revenue stats))
                   (filter (\<lambda>(product, stats). total_qty stats < threshold) product_stats)
           in Inr (sort_key (\<lambda>(product, qty, rev). qty) low_products)))"

text \<open>The call \<^verbatim>\<open>low_performing_products(transactions)\<close>, with the default threshold.\<close>

definition low_performing_products_default ::
  "'a transaction_scheme list \<Rightarrow> py_error + (pystr \<times> int \<times> pyfloat) list" where
  "low_performing_products_default transactions = low_performing_products transactions 10"

section \<open>Rendering values as text\<close>

text \<open>\<^verbatim>\<open>str(n)\<close> for an \<^verbatim>\<open>int\<close>: the decimal digits, with a sign.\<close>

definition digit_char :: "nat \<Rightarrow> nat" where
  "digit_char d = 48 + d"

fun str_nat :: "nat \<Rightarrow> pystr" where
  "str_nat n = (if n < 10 then [digit_char n] else str_nat (n div 10) @ [digit_char (n mod 10)])"

definition str_int :: "int \<Rightarrow> pystr" where
  "str_int i = (if i < 0 then ustr ''-'' @ str_nat (nat (- i)) else str_nat (nat i))"

text \<open>\<^verbatim>\<open>str(b)\<close> for a \<^verbatim>\<open>bool\<close>.\<close>

definition str_bool :: "bool \<Rightarrow> pystr" where
  "str_bool b = (if b then ustr ''True'' else ustr ''False'')"

text \<open>
  \<^verbatim>\<open>str(x)\<close> for a value that is \<^verbatim>\<open>None\<close> or is rendered by \<open>str_of\<close>:
  \<^verbatim>\<open>str(None)\<close> is the text \<^verbatim>\<open>None\<close>.
\<close>

fun str_optional :: "('a \<Rightarrow> pystr) \<Rightarrow> 'a option \<Rightarrow> pystr" where
  "str_optional str_of None = ustr ''None''"
| "str_optional str_of (Some x) = str_of x"

text \<open>\<^verbatim>\<open>sep.join(parts)\<close>\<close>

fun join :: "pystr \<Rightarrow> pystr list \<Rightarrow> pystr" where
  "join sep [] = []"
| "join sep [x] = x"
| "join sep (x # y # ys) = x @ sep @ join sep (y # ys)"

definition newline :: pystr where
  "newline = [10]"

section \<open>Catalog enricher (api\_handler.py)\<close>

text \<open>
  An entry of the product mapping built by \<^verbatim>\<open>create_product_mapping\<close>: each field
  is what \<^verbatim>\<open>p.get(...)\<close> gave, possibly \<^verbatim>\<open>None\<close>.
\<close>

record api_info =
  title :: "pystr option"
  category :: "pystr option"
  brand :: "pystr option"
  rating :: "pyfloat option"

text \<open>
  Python does not fix the type of the values of \<^verbatim>\<open>product_mapping\<close>. A value that
  is not a dictionary (\<^verbatim>\<open>None\<close>, say) has no \<^verbatim>\<open>get\<close>, and
  \<^verbatim>\<open>api_info.get("category")\<close> raises \<^verbatim>\<open>AttributeError\<close> on it.
\<close>

datatype mapping_value = Dict api_info | NotADict

type_synonym product_mapping = "int \<rightharpoonup> mapping_value"

text \<open>A transaction after enrichment: the same dictionary with four more keys.\<close>

record enriched_transaction = transaction +
  API_Category :: "pystr option"
  API_Brand :: "pystr option"
  API_Rating :: "pyfloat option"
  API_Match :: bool

text \<open>The four assignments \<^verbatim>\<open>tx["API_..."] = ...\<close> on the dictionary \<open>tx\<close>.\<close>

definition set_api ::
  "transaction \<Rightarrow> pystr option \<Rightarrow> pystr option \<Rightarrow> pyfloat option \<Rightarrow> bool
     \<Rightarrow> enriched_transaction" where
  "set_api tx c b r m =
     \<lparr>TransactionID = TransactionID tx, Date = Date tx, ProductID = ProductID tx,
      ProductName = ProductName tx, Quantity = Quantity tx, UnitPrice = UnitPrice tx,
      CustomerID = CustomerID tx, Region = Region tx,
      API_Category = c, API_Brand = b, API_Rating = r, API_Match = m\<rparr>"

definition no_match :: "transaction \<Rightarrow> enriched_transaction" where
  "no_match tx = set_api tx None None None False"

text \<open>
  The digit value of a code point that \<^verbatim>\<open>\d\<close> matches and \<^verbatim>\<open>int()\<close> reads: the
  ASCII digits \<^verbatim>\<open>0\<close> to \<^verbatim>\<open>9\<close> (code points 48 to 57), no other ASCII
  character, and outside ASCII the decimal digits of the interpreter's Unicode database.
\<close>

definition decimal_value :: "runtime \<Rightarrow> nat \<Rightarrow> nat option" where
  "decimal_value rt c =
     (if 48 \<le> c \<and> c \<le> 57 then Some (c - 48)
      else if c < 128 then None
      else unicode_decimal rt c)"

definition is_digit :: "runtime \<Rightarrow> nat \<Rightarrow> bool" where
  "is_digit rt c \<longleftrightarrow> decimal_value rt c \<noteq> None"

text \<open>
  \<^verbatim>\<open>re.search(r'\d+', s)\<close> and \<^verbatim>\<open>match.group()\<close>: the first maximal run of
  digits of \<open>s\<close>, if \<open>s\<close> has a digit.
\<close>

definition search_digits :: "runtime \<Rightarrow> pystr \<Rightarrow> pystr option" where
  "search_digits rt s =
     (let rest = dropWhile (\<lambda>c. \<not> is_digit rt c) s
      in if rest = [] then None else Some (takeWhile (is_digit rt) rest))"

text \<open>
  \<^verbatim>\<open>int(digits)\<close> on a nonempty string of digits. With a limit on the number of
  digits in force, a string of more than 640 digits that exceeds the limit raises
  \<^verbatim>\<open>ValueError\<close>.
\<close>

definition int_of_digits :: "runtime \<Rightarrow> pystr \<Rightarrow> int" where
  "int_of_digits rt ds = foldl (\<lambda>n c. 10 * n + int (the (decimal_value rt c))) 0 ds"

definition py_int :: "runtime \<Rightarrow> pystr \<Rightarrow> py_error + int" where
  "py_int rt ds =
     (if 640 < length ds \<and> 0 < int_max_str_digits rt \<and> int_max_str_digits rt < length ds
      then Inl ValueError
      else Inr (int_of_digits rt ds))"

text \<open>The truth value of \<^verbatim>\<open>product_id\<close> in a condition: \<^verbatim>\<open>None\<close> and \<open>0\<close> are false.\<close>

fun truthy :: "int option \<Rightarrow> bool" where
  "truthy None = False"
| "truthy (Some n) = (n \<noteq> 0)"

text \<open>
  The first two lines of the \<^verbatim>\<open>try\<close> block:
  \<^verbatim>\<open>product_id = int(match.group()) if match else None\<close>.
\<close>

definition extract_product_id :: "runtime \<Rightarrow> transaction \<Rightarrow> py_error + int option" where
  "extract_product_id rt tx =
     (case search_digits rt (ProductID tx) of
        None \<Rightarrow> Inr None
      | Some ds \<Rightarrow> (case py_int rt ds of Inl e \<Rightarrow> Inl e | Inr n \<Rightarrow> Inr (Some n)))"

text \<open>The body of the \<^verbatim>\<open>try\<close> block of \<^verbatim>\<open>enrich_sales_data\<close> for one transaction.\<close>

definition enrich_try ::
  "runtime \<Rightarrow> product_mapping \<Rightarrow> transaction \<Rightarrow> py_error + enriched_transaction" where
  "enrich_try rt product_mapping tx =
     (case extract_product_id rt tx of
        Inl e \<Rightarrow> Inl e
      | Inr product_id \<Rightarrow>
          if truthy product_id \<and> the product_id \<in> dom product_mapping
          then (case the (product_mapping (the product_id)) of
                  Dict api_info \<Rightarrow>
                    Inr (set_api tx (category api_info) (brand api_info)
                           (rating api_info) True)
                | NotADict \<Rightarrow> Inl AttributeError)
          else Inr (no_match tx))"

text \<open>
  One iteration of the loop: the \<^verbatim>\<open>try\<close> block, and the \<^verbatim>\<open>except Exception\<close>
  handler that records the transaction as unmatched.
\<close>

definition enrich_record ::
  "runtime \<Rightarrow> product_mapping \<Rightarrow> transaction \<Rightarrow> enriched_transaction" where
  "enrich_record rt product_mapping tx =
     (case enrich_try rt product_mapping tx of
        Inr enriched_tx \<Rightarrow> enriched_tx
      | Inl e \<Rightarrow> no_match tx)"

fun enrich_loop ::
  "runtime \<Rightarrow> product_mapping \<Rightarrow> transaction list \<Rightarrow> enriched_transaction list
     \<Rightarrow> enriched_transaction list" where
  "enrich_loop rt product_mapping [] enriched = enriched"
| "enrich_loop rt product_mapping (tx # txs) enriched =
     enrich_loop rt product_mapping txs (enriched @ [enrich_record rt product_mapping tx])"

text \<open>
  \<^verbatim>\<open>save_enriched_data\<close> is defined twice in api\_handler.py. The second definition
  (line 179) replaces the first when the module is loaded, so it is the one that
  \<^verbatim>\<open>enrich_sales_data\<close> calls. The result is the text written to the file, one
  element per \<^verbatim>\<open>f.write\<close>; failures of the file system are not modelled. The keys
  are all present, so no default of \<^verbatim>\<open>tx.get\<close> is used.
\<close>

definition header :: "pystr list" where
  "header = map ustr
     [''TransactionID'', ''Date'', ''ProductID'', ''ProductName'',
      ''Quantity'', ''UnitPrice'', ''CustomerID'', ''Region'',
      ''API_Category'', ''API_Brand'', ''API_Rating'', ''API_Match'']"

definition enriched_row :: "runtime \<Rightarrow> enriched_transaction \<Rightarrow> pystr list" where
  "enriched_row rt tx =
     [TransactionID tx, Date tx, ProductID tx, ProductName tx,
      str_int (Quantity tx), str_float rt (UnitPrice tx), CustomerID tx, Region tx,
      str_optional id (API_Category tx),
      str_optional id (API_Brand tx),
      str_optional (str_float rt) (API_Rating tx),
      str_bool (API_Match tx)]"

definition save_enriched_data :: "runtime \<Rightarrow> enriched_transaction list \<Rightarrow> pystr list" where
  "save_enriched_data rt enriched =
     (join (ustr ''|'') header @ newline)
     # map (\<lambda>tx. join (ustr ''|'') (enriched_row rt tx) @ newline) enriched"

text \<open>The first definition (line 137), which the second one shadows.\<close>

definition enriched_row_shadowed :: "runtime \<Rightarrow> enriched_transaction \<Rightarrow> pystr list" where
  "enriched_row_shadowed rt tx =
     [TransactionID tx, Date tx, ProductID tx, ProductName tx,
      str_int (Quantity tx), str_float rt (UnitPrice tx), CustomerID tx, Region tx,
      (if API_Category tx \<noteq> None then str_optional id (API_Category tx) else []),
      (if API_Brand tx \<noteq> None then str_optional id (API_Brand tx) else []),
      (if API_Rating tx \<noteq> None then str_optional (str_float rt) (API_Rating tx) else []),
      str_bool (API_Match tx)]"

definition save_enriched_data_shadowed ::
  "runtime \<Rightarrow> enriched_transaction list \<Rightarrow> pystr list" where
  "save_enriched_data_shadowed rt enriched =
     (join (ustr ''|'') header @ newline)
     # map (\<lambda>tx. join (ustr ''|'') (enriched_row_shadowed rt tx) @ newline) enriched"

text \<open>
  \<^verbatim>\<open>enrich_sales_data\<close> (the second definition, line 209, which is the one in
  effect). The first component of the result is the text written to
  data/enriched\_sales\_data.txt; the second is the returned list, or the exception that
  leaves the function. The console summary divides by \<^verbatim>\<open>len(enriched)\<close>.
\<close>

definition enrich_sales_data ::
  "runtime \<Rightarrow> transaction list \<Rightarrow> product_mapping
     \<Rightarrow> pystr list \<times> (py_error + enriched_transaction list)" where
  "enrich_sales_data rt transactions product_mapping =
     (let enriched = enrich_loop rt product_mapping transactions [];
          file = save_enriched_data rt enriched
      in if length enriched = 0 then (file, Inl ZeroDivisionError)
         else (file, Inr enriched))"

section \<open>Report writer (generate\_sales\_report in api\_handler.py)\<close>

text \<open>
  The report writer computes its tables itself, each in a loop over the transactions
  that multiplies quantity and unit price; the sections below are the values of its local
  variables, or the exception that the loop of the section raises. Section 4 groups by
  product name in a \<^verbatim>\<open>defaultdict\<close> whose entries \<^verbatim>\<open>{"qty": 0, "revenue": 0}\<close> are
  pairs here; the \<^verbatim>\<open>int\<close> 0 converts to the float 0 in the first addition. The table
  is written by enumerating \<^verbatim>\<open>top_products\<close> in order, one line per entry.
\<close>

definition report_product_sales ::
  "'a transaction_scheme list \<Rightarrow> py_error + (pystr \<times> int \<times> pyfloat) list" where
  "report_product_sales transactions =
     fold_raise (\<lambda>product_sales tx. with_amount tx (\<lambda>a.
        dict_upsert (ProductName tx) (0, Fin 0)
          (\<lambda>(qty, rev). (qty + Quantity tx, fadd rev a))
          product_sales)) transactions []"

text \<open>
  \<^verbatim>\<open>top_products\<close>: \<open>None\<close> where the sort by revenue is not modelled.
\<close>

definition report_top_products ::
  "'a transaction_scheme list \<Rightarrow> (py_error + (pystr \<times> int \<times> pyfloat) list) option" where
  "report_top_products transactions =
     (case report_product_sales transactions of
        Inl e \<Rightarrow> Some (Inl e)
      | Inr product_sales \<Rightarrow>
          map_option (\<lambda>ranked. Inr (slice_to ranked 5))
            (sorted_reverse_float (\<lambda>(pname, qty, rev). rev) product_sales))"

text \<open>Section 7: the low performing products and the line that lists them.\<close>

definition report_low_products :: "'a transaction_scheme list \<Rightarrow> py_error + pystr list" where
  "report_low_products transactions =
     (case report_product_sales transactions of
        Inl e \<Rightarrow> Inl e
      | Inr product_sales \<Rightarrow>
          Inr (map fst (filter (\<lambda>(p, qty, rev). qty = 0) product_sales)))"

definition report_low_products_line :: "'a transaction_scheme list \<Rightarrow> py_error + pystr" where
  "report_low_products_line transactions =
     (case report_low_products transactions of
        Inl e \<Rightarrow> Inl e
      | Inr low_products \<Rightarrow>
          Inr (ustr ''Low Performing Products: ''
               @ (if low_products \<noteq> [] then join (ustr '', '') low_products
                  else ustr ''None'')
               @ newline))"

text \<open>
  Section 6 and the best day of section 7: the maximum is taken only if there is a day.
\<close>

definition report_daily_sales ::
  "'a transaction_scheme list \<Rightarrow> py_error + (pystr \<times> pyfloat \<times> int \<times> pystr set) list" where
  "report_daily_sales transactions =
     fold_raise (\<lambda>daily_sales tx. with_amount tx (\<lambda>a.
        dict_upsert (Date tx) (Fin 0, 0, {})
          (\<lambda>(rev, n, customers). (fadd rev a, n + 1, insert (CustomerID tx) customers))
          daily_sales)) transactions []"

definition report_best_day ::
  "'a transaction_scheme list
     \<Rightarrow> py_error + (pystr \<times> pyfloat \<times> int \<times> pystr set) option" where
  "report_best_day transactions =
     (case report_daily_sales transactions of
        Inl e \<Rightarrow> Inl e
      | Inr daily_sales \<Rightarrow>
          if daily_sales \<noteq> []
          then (case py_max flt (\<lambda>(date, rev, n, customers). rev) daily_sales of
                  Inl e \<Rightarrow> Inl e
                | Inr best \<Rightarrow> Inr (Some best))
          else Inr None)"

section \<open>Example data\<close>

text \<open>
  The two rows \<^verbatim>\<open>T1|2024-01-01|P101|Mouse|2|500|C1|North\<close> and
  \<^verbatim>\<open>T2|2024-01-01|P999|KB|1|100|C2|South\<close> as parsed transactions.
\<close>

definition sale_mouse :: transaction where
  "sale_mouse =
     \<lparr>TransactionID = ustr ''T1'', Date = ustr ''2024-01-01'', ProductID = ustr ''P101'',
      ProductName = ustr ''Mouse'', Quantity = 2, UnitPrice = Fin 500,
      CustomerID = ustr ''C1'', Region = ustr ''North''\<rparr>"

definition sale_kb :: transaction where
  "sale_kb =
     \<lparr>TransactionID = ustr ''T2'', Date = ustr ''2024-01-01'', ProductID = ustr ''P999'',
      ProductName = ustr ''KB'', Quantity = 1, UnitPrice = Fin 100,
      CustomerID = ustr ''C2'', Region = ustr ''South''\<rparr>"

text \<open>A sale of \<open>q\<close> units of the product \<open>name\<close> at the price \<open>p\<close>, in the region North.\<close>

definition sale_of :: "string \<Rightarrow> int \<Rightarrow> rat \<Rightarrow> transaction" where
  "sale_of name q p = sale_mouse\<lparr>ProductName := ustr name, Quantity := q, UnitPrice := Fin p\<rparr>"

text \<open>
  Four sales of three products: Mouse is sold twice, KB and Pad once each with the same
  quantity, KB first.
\<close>

definition ranking_example :: "transaction list" where
  "ranking_example = [sale_kb, sale_mouse, sale_kb\<lparr>ProductName := ustr ''Pad''\<rparr>, sale_mouse]"

text \<open>Mouse has the larger revenue (2 at 500), KB the larger quantity (5 at 100).\<close>

definition revenue_example :: "transaction list" where
  "revenue_example = [sale_mouse, sale_kb\<lparr>Quantity := 5\<rparr>]"

text \<open>
  Seven sales of six products. By revenue: F 900, A 600 (two sales), E 500, B 400,
  D 300, C 200. By quantity: C 20, A 6, D 3, B 2, E 1, F 1.
\<close>

definition six_products_example :: "transaction list" where
  "six_products_example =
     [sale_of ''A'' 3 100, sale_of ''B'' 2 200, sale_of ''C'' 20 10, sale_of ''D'' 3 100,
      sale_of ''E'' 1 500, sale_of ''F'' 1 900, sale_of ''A'' 3 100]"

text \<open>
  One unit each at the prices \<^verbatim>\<open>0.1\<close>, \<^verbatim>\<open>0.2\<close> and \<^verbatim>\<open>0.3\<close>, the first sale in
  the region North and the other two in the region South. A decimal literal denotes the
  nearest float.
\<close>

definition tenths_example :: "transaction list" where
  "tenths_example =
     [sale_mouse\<lparr>Quantity := 1, UnitPrice := rnd (1 / 10)\<rparr>,
      sale_kb\<lparr>Quantity := 1, UnitPrice := rnd (2 / 10)\<rparr>,
      sale_kb\<lparr>Quantity := 1, UnitPrice := rnd (3 / 10)\<rparr>]"

text \<open>
  Prices with fractions that are sums of powers of two: Mouse 3 at \<^verbatim>\<open>0.5\<close> in the
  region North, KB 1 at \<^verbatim>\<open>0.25\<close> and 2 at \<^verbatim>\<open>49.75\<close> in the region South.
\<close>

definition quarters_example :: "transaction list" where
  "quarters_example =
     [sale_mouse\<lparr>Quantity := 3, UnitPrice := Fin (1 / 2)\<rparr>,
      sale_kb\<lparr>Quantity := 1, UnitPrice := Fin (1 / 4)\<rparr>,
      sale_kb\<lparr>Quantity := 2, UnitPrice := Fin (199 / 4)\<rparr>]"

text \<open>The row \<^verbatim>\<open>T3|2024-01-02|P7|Cable|1|nan|C3|East\<close> as a parsed transaction.\<close>

definition sale_nan :: transaction where
  "sale_nan =
     \<lparr>TransactionID = ustr ''T3'', Date = ustr ''2024-01-02'', ProductID = ustr ''P7'',
      ProductName = ustr ''Cable'', Quantity = 1, UnitPrice = NaN,
      CustomerID = ustr ''C3'', Region = ustr ''East''\<rparr>"

text \<open>An interpreter with the ASCII digits only and the default limit for \<^verbatim>\<open>int()\<close>.\<close>

definition ascii_runtime :: "(pyfloat \<Rightarrow> pystr) \<Rightarrow> runtime" where
  "ascii_runtime repr =
     \<lparr>unicode_decimal = (\<lambda>c. None), int_max_str_digits = 4300, str_float = repr\<rparr>"

section \<open>Notions used in the statements\<close>

text \<open>
  The distinct elements of a list in the order of their first occurrence, and the
  position of the first occurrence of an element.
\<close>

definition first_seen :: "'a list \<Rightarrow> 'a list" where
  "first_seen xs = rev (remdups (rev xs))"

definition first_index :: "'a list \<Rightarrow> 'a \<Rightarrow> nat" where
  "first_index xs a = length (takeWhile (\<lambda>x. x \<noteq> a) xs)"

text \<open>
  The accumulation \<^verbatim>\<open>s = 0.0; for x in xs: s += x\<close> of floats, left to right, each
  addition rounded.
\<close>

definition float_sum :: "pyfloat list \<Rightarrow> pyfloat" where
  "float_sum xs = foldl fadd (Fin 0) xs"

text \<open>
  The amount of a transaction whose quantity is within the range of the floats, where the
  product does not raise.
\<close>

definition amount_value :: "'a transaction_scheme \<Rightarrow> pyfloat" where
  "amount_value tx = fmul (Fin (round_nearest (of_int (Quantity tx)))) (UnitPrice tx)"

text \<open>The rational value of a finite float.\<close>

fun fin_value :: "pyfloat \<Rightarrow> rat" where
  "fin_value (Fin x) = x"
| "fin_value a = 0"


text \<open>The multiples of \<open>2^-1074\<close>, the spacing of the smallest floats.\<close>

definition on_grid :: "rat \<Rightarrow> bool" where
  "on_grid x \<longleftrightarrow> x * 2 ^ 1074 \<in> \<int>"

section \<open>Strings\<close>

lemma ustr_eq_iff [simp]: "ustr a = ustr b \<longleftrightarrow> a = b"
  by (simp add: ustr_def inj_map_eq_map inj_on_def)

lemma ustr_append: "ustr (a @ b) = ustr a @ ustr b"
  by (simp add: ustr_def)

lemma ustr_Nil [simp]: "ustr [] = []"
  by (simp add: ustr_def)

lemma ustr_eq_Nil [simp]: "ustr a = [] \<longleftrightarrow> a = []"
  by (simp add: ustr_def)

lemma startswith_ustr [simp]: "startswith (ustr s) (ustr p) \<longleftrightarrow> take (length p) s = p"
  by (simp add: startswith_def ustr_def flip: take_map) (metis inj_map_eq_map inj_of_char take_map)

section \<open>Loops that can raise\<close>

lemma amount_cases:
  "amount tx = (if int_overflows (Quantity tx) then Inl OverflowError else Inr (amount_value tx))"
  by (simp add: amount_def float_of_int_def amount_value_def)

lemma with_amount_cases:
  "with_amount tx f =
     (if int_overflows (Quantity tx) then Inl OverflowError else Inr (f (amount_value tx)))"
  by (simp add: with_amount_def amount_cases)

lemma fold_raise_with_amount:
  "fold_raise (\<lambda>s tx. with_amount tx (g s tx)) txs s =
     (if \<exists>tx \<in> set txs. int_overflows (Quantity tx) then Inl OverflowError
      else Inr (foldl (\<lambda>s tx. g s tx (amount_value tx)) s txs))"
  by (induction txs arbitrary: s) (simp_all add: with_amount_cases)

lemma map_raise_amount:
  "map_raise amount txs =
     (if \<exists>tx \<in> set txs. int_overflows (Quantity tx) then Inl OverflowError
      else Inr (map amount_value txs))"
  by (induction txs) (simp_all add: amount_cases)

lemma filter_raise_with_amount:
  "\<forall>tx \<in> set txs. \<not> int_overflows (Quantity tx) \<Longrightarrow>
     filter_raise (\<lambda>tx. with_amount tx (p tx)) txs = Inr (filter (\<lambda>tx. p tx (amount_value tx)) txs)"
  by (induction txs) (simp_all add: with_amount_cases)

lemma map_raise_Inr:
  "\<forall>x \<in> set xs. f x = Inr (g x) \<Longrightarrow> map_raise f xs = Inr (map g xs)"
  by (induction xs) simp_all

section \<open>Grouping into a dictionary\<close>

lemma first_seen_Nil [simp]: "first_seen [] = []"
  by (simp add: first_seen_def)

lemma first_seen_snoc:
  "first_seen (xs @ [x]) = (if x \<in> set xs then first_seen xs else first_seen xs @ [x])"
  by (simp add: first_seen_def)

lemma set_first_seen [simp]: "set (first_seen xs) = set xs"
  by (simp add: first_seen_def)

lemma distinct_first_seen [simp]: "distinct (first_seen xs)"
  by (simp add: first_seen_def)

lemma length_first_seen: "length (first_seen xs) = card (set xs)"
  by (metis distinct_card distinct_first_seen set_first_seen)

lemma dict_upsert_present:
  "distinct ks \<Longrightarrow> k \<in> set ks \<Longrightarrow>
     dict_upsert k d f (map (\<lambda>k'. (k', g k')) ks) =
     map (\<lambda>k'. (k', if k' = k then f (g k') else g k')) ks"
  by (induction ks) auto

lemma dict_upsert_absent:
  "k \<notin> set ks \<Longrightarrow>
     dict_upsert k d f (map (\<lambda>k'. (k', g k')) ks) = map (\<lambda>k'. (k', g k')) ks @ [(k, f d)]"
  by (induction ks) auto

text \<open>
  A grouping loop yields the keys in the order of their first occurrence, each with the
  fold of the update steps over the transactions of that key, in input order.
\<close>

lemma foldl_dict_upsert:
  "foldl (\<lambda>acc tx. dict_upsert (key tx) d (step tx) acc) [] txs =
     map (\<lambda>k. (k, foldl (\<lambda>v tx. step tx v) d (filter (\<lambda>tx. key tx = k) txs)))
       (first_seen (map key txs))"
proof (induction txs rule: rev_induct)
  case Nil
  show ?case by simp
next
  case (snoc tx txs)
  let ?g = "\<lambda>k. foldl (\<lambda>v tx. step tx v) d (filter (\<lambda>tx. key tx = k) txs)"
  show ?case
  proof (cases "key tx \<in> set (map key txs)")
    case True
    then have "key tx \<in> set (first_seen (map key txs))" by simp
    from dict_upsert_present [OF distinct_first_seen this, of d "step tx" ?g]
    show ?thesis using True snoc by (simp add: first_seen_snoc)
  next
    case False
    then have nin: "key tx \<notin> set (first_seen (map key txs))" by simp
    have empty: "filter (\<lambda>t. key t = key tx) txs = []"
      using False by (induction txs) auto
    from dict_upsert_absent [OF nin, of d "step tx" ?g]
    show ?thesis using False snoc by (auto simp add: first_seen_snoc empty)
  qed
qed

lemma filter_key_nonempty: "p \<in> set (map key txs) \<Longrightarrow> filter (\<lambda>tx. key tx = p) txs \<noteq> []"
  by (induction txs) auto

text \<open>The three groupings of the program, for quantities within the range of the floats.\<close>

lemma report_product_sales_char:
  "report_product_sales txs =
     (if \<exists>tx \<in> set txs. int_overflows (Quantity tx) then Inl OverflowError
      else Inr (map (\<lambda>p. (p, sum_list (map Quantity (filter (\<lambda>tx. ProductName tx = p) txs)),
                  float_sum (map amount_value (filter (\<lambda>tx. ProductName tx = p) txs))))
             (first_seen (map ProductName txs))))"
proof -
  have step: "foldl (\<lambda>v tx. (\<lambda>(qty, rev). (qty + Quantity tx, fadd rev (amount_value tx))) v)
                (q0, r0) ts =
     (q0 + sum_list (map Quantity ts), foldl fadd r0 (map amount_value ts))"
    for q0 r0 and ts :: "'a transaction_scheme list"
    by (induction ts arbitrary: q0 r0) (simp_all add: add.assoc)
  have "foldl (\<lambda>s tx. dict_upsert (ProductName tx) (0, Fin 0)
                 (\<lambda>(qty, rev). (qty + Quantity tx, fadd rev (amount_value tx))) s) [] txs =
     map (\<lambda>p. (p, foldl (\<lambda>v tx. (\<lambda>(qty, rev). (qty + Quantity tx, fadd rev (amount_value tx))) v)
                     (0, Fin 0) (filter (\<lambda>tx. ProductName tx = p) txs)))
       (first_seen (map ProductName txs))"
    by (rule foldl_dict_upsert
        [where key = ProductName and d = "(0, Fin 0)"
           and step = "\<lambda>tx (qty, rev). (qty + Quantity tx, fadd rev (amount_value tx))"])
  then show ?thesis
    unfolding report_product_sales_def fold_raise_with_amount
    by (simp add: step float_sum_def)
qed

lemma product_totals_char:
  "product_totals txs =
     (if \<exists>tx \<in> set txs. int_overflows (Quantity tx) then Inl OverflowError
      else Inr (map (\<lambda>p. (p,
                  \<lparr>total_qty = sum_list (map Quantity (filter (\<lambda>tx. ProductName tx = p) txs)),
                   total_revenue =
                     float_sum (map amount_value (filter (\<lambda>tx. ProductName tx = p) txs))\<rparr>))
             (first_seen (map ProductName txs))))"
proof -
  have step: "foldl (\<lambda>stats tx. stats\<lparr>total_qty := total_qty stats + Quantity tx,
                         total_revenue := fadd (total_revenue stats) (amount_value tx)\<rparr>) s ts =
     \<lparr>total_qty = total_qty s + sum_list (map Quantity ts),
      total_revenue = foldl fadd (total_revenue s) (map amount_value ts)\<rparr>"
    for s :: product_stat and ts :: "'a transaction_scheme list"
    by (induction ts arbitrary: s) (simp_all add: add.assoc)
  show ?thesis
    unfolding product_totals_def fold_raise_with_amount
    by (simp add: foldl_dict_upsert
        [where key = ProductName and d = "\<lparr>total_qty = 0, total_revenue = Fin 0\<rparr>"
           and step = "\<lambda>tx stats. stats\<lparr>total_qty := total_qty stats + Quantity tx,
                         total_revenue := fadd (total_revenue stats) (amount_value tx)\<rparr>"]
        step float_sum_def)
qed

lemma region_totals_char:
  "region_totals txs =
     (if \<exists>tx \<in> set txs. int_overflows (Quantity tx) then Inl OverflowError
      else Inr (map (\<lambda>r. (r,
                  \<lparr>total_sales = float_sum (map amount_value (filter (\<lambda>tx. Region tx = r) txs)),
                   transaction_count = int (length (filter (\<lambda>tx. Region tx = r) txs)),
                   percentage = Fin 0\<rparr>))
             (first_seen (map Region txs))))"
proof -
  have step: "foldl (\<lambda>stats tx. stats\<lparr>total_sales := fadd (total_sales stats) (amount_value tx),
                         transaction_count := transaction_count stats + 1\<rparr>) s ts =
     \<lparr>total_sales = foldl fadd (total_sales s) (map amount_value ts),
      transaction_count = transaction_count s + int (length ts),
      percentage = percentage s\<rparr>"
    for s :: region_stat and ts :: "'a transaction_scheme list"
    by (induction ts arbitrary: s) (simp_all add: add.assoc)
  show ?thesis
    unfolding region_totals_def fold_raise_with_amount
    by (simp add: foldl_dict_upsert
        [where key = Region
           and d = "\<lparr>total_sales = Fin 0, transaction_count = 0, percentage = Fin 0\<rparr>"
           and step = "\<lambda>tx stats. stats\<lparr>total_sales := fadd (total_sales stats) (amount_value tx),
                         transaction_count := transaction_count stats + 1\<rparr>"]
        step float_sum_def)
qed

lemma calculate_total_revenue_char:
  "calculate_total_revenue txs =
     (if \<exists>tx \<in> set txs. int_overflows (Quantity tx) then Inl OverflowError
      else Inr (float_sum (map amount_value txs)))"
  unfolding calculate_total_revenue_def fold_raise_with_amount
  by (simp add: float_sum_def foldl_map)

section \<open>Stable sorting\<close>

lemma set_insort_desc [simp]: "set (insort_desc key x xs) = insert x (set xs)"
  by (induction xs) auto

lemma length_insort_desc [simp]: "length (insort_desc key x xs) = Suc (length xs)"
  by (induction xs) auto

lemma sort_desc_Nil [simp]: "sort_desc key [] = []"
  by (simp add: sort_desc_def)

lemma sort_desc_Cons: "sort_desc key (x # xs) = insort_desc key x (sort_desc key xs)"
  by (simp add: sort_desc_def)

lemma set_sort_desc [simp]: "set (sort_desc key xs) = set xs"
  by (induction xs) (simp_all add: sort_desc_Cons)

lemma length_sort_desc [simp]: "length (sort_desc key xs) = length xs"
  by (induction xs) (simp_all add: sort_desc_Cons)

text \<open>
  A stable descending sort of a list that is ordered by \<open>S\<close> is ordered by the key,
  greatest first, and, among equal keys, by \<open>S\<close>.
\<close>

lemma sorted_wrt_insort_desc_lex:
  assumes "sorted_wrt (\<lambda>a b. key b < key a \<or> (key a = key b \<and> S a b)) ys"
    and "\<forall>y \<in> set ys. S x y"
  shows "sorted_wrt (\<lambda>a b. key b < key a \<or> (key a = key b \<and> S a b)) (insort_desc key x ys)"
  using assms
proof (induction ys)
  case Nil
  then show ?case by simp
next
  case (Cons y ys)
  show ?case
  proof (cases "key y \<le> key x")
    case True
    have "key z < key x \<or> (key x = key z \<and> S x z)" if "z \<in> set (y # ys)" for z
    proof -
      have "key z \<le> key y" using that Cons.prems(1) by auto
      then have "key z \<le> key x" using True by simp
      moreover have "S x z" using that Cons.prems(2) by auto
      ultimately show ?thesis by auto
    qed
    then show ?thesis using True Cons.prems(1) by simp
  next
    case False
    then have "key x < key y" by simp
    moreover have "sorted_wrt (\<lambda>a b. key b < key a \<or> (key a = key b \<and> S a b))
                     (insort_desc key x ys)"
      using Cons by simp
    ultimately show ?thesis using False Cons.prems(1) by auto
  qed
qed

lemma sorted_wrt_sort_desc_lex:
  assumes "sorted_wrt S xs"
  shows "sorted_wrt (\<lambda>a b. key b < key a \<or> (key a = key b \<and> S a b)) (sort_desc key xs)"
  using assms
proof (induction xs)
  case Nil
  then show ?case by simp
next
  case (Cons x xs)
  have "\<forall>y \<in> set (sort_desc key xs). S x y" using Cons.prems by simp
  moreover have "sorted_wrt (\<lambda>a b. key b < key a \<or> (key a = key b \<and> S a b)) (sort_desc key xs)"
    using Cons by simp
  ultimately show ?case
    by (simp add: sort_desc_Cons sorted_wrt_insort_desc_lex)
qed

lemma first_index_snoc_in: "a \<in> set ns \<Longrightarrow> first_index (ns @ [n]) a = first_index ns a"
  by (simp add: first_index_def)

lemma first_index_less: "a \<in> set ns \<Longrightarrow> first_index ns a < length ns"
  unfolding first_index_def
  by (induction ns) auto

lemma first_index_snoc_new: "n \<notin> set ns \<Longrightarrow> first_index (ns @ [n]) n = length ns"
  unfolding first_index_def by (induction ns) auto

lemma sorted_wrt_first_seen:
  "sorted_wrt (\<lambda>a b. first_index ns a < first_index ns b) (first_seen ns)"
proof (induction ns rule: rev_induct)
  case Nil
  then show ?case by simp
next
  case (snoc n ns)
  have old: "sorted_wrt (\<lambda>a b. first_index (ns @ [n]) a < first_index (ns @ [n]) b)
               (first_seen ns)"
    by (rule sorted_wrt_mono_rel [OF _ snoc]) (simp add: first_index_snoc_in)
  show ?case
  proof (cases "n \<in> set ns")
    case True
    then show ?thesis using old by (simp add: first_seen_snoc)
  next
    case False
    then show ?thesis using old
      by (simp add: first_seen_snoc sorted_wrt_append first_index_snoc_in first_index_snoc_new
          first_index_less)
  qed
qed

text \<open>The order of the floats other than \<^verbatim>\<open>nan\<close> is the order of their ranks.\<close>

lemma float_rank_inject: "a \<noteq> NaN \<Longrightarrow> b \<noteq> NaN \<Longrightarrow> float_rank a = float_rank b \<longleftrightarrow> a = b"
  by (cases a; cases b) simp_all

lemma flt_rank: "a \<noteq> NaN \<Longrightarrow> b \<noteq> NaN \<Longrightarrow> flt a b \<longleftrightarrow> float_rank a < float_rank b"
  by (simp add: flt_def)

lemma flt_Fin [simp]: "flt (Fin a) (Fin b) \<longleftrightarrow> a < b"
  by (simp add: flt_def)

lemma fle_Fin [simp]: "fle (Fin a) (Fin b) \<longleftrightarrow> a \<le> b"
  by (simp add: fle_def)

lemma flt_NaN [simp]: "\<not> flt NaN b" "\<not> flt a NaN" "\<not> fle NaN b" "\<not> fle a NaN"
  by (simp_all add: flt_def fle_def)

lemma sorted_reverse_float_Some:
  assumes "\<forall>x \<in> set xs. key x \<noteq> NaN" and "sorted_wrt S xs"
  shows "sorted_reverse_float key xs = Some (sort_desc (\<lambda>x. float_rank (key x)) xs)"
    and "sorted_wrt (\<lambda>a b. flt (key b) (key a) \<or> (key a = key b \<and> S a b))
           (sort_desc (\<lambda>x. float_rank (key x)) xs)"
proof -
  let ?ys = "sort_desc (\<lambda>x. float_rank (key x)) xs"
  have "sorted_wrt (\<lambda>a b. float_rank (key b) < float_rank (key a)
            \<or> (float_rank (key a) = float_rank (key b) \<and> S a b)) ?ys"
    using assms(2) by (rule sorted_wrt_sort_desc_lex)
  moreover have "flt (key b) (key a) \<or> (key a = key b \<and> S a b)"
    if "a \<in> set ?ys" "b \<in> set ?ys"
      "float_rank (key b) < float_rank (key a)
         \<or> (float_rank (key a) = float_rank (key b) \<and> S a b)" for a b
    using that assms(1) by (auto simp: flt_rank float_rank_inject)
  ultimately show "sorted_wrt (\<lambda>a b. flt (key b) (key a) \<or> (key a = key b \<and> S a b)) ?ys"
    by (rule sorted_wrt_mono_rel [rotated])
  show "sorted_reverse_float key xs = Some ?ys"
    using assms(1) by (simp add: sorted_reverse_float_def)
qed

section \<open>Properties of the validator\<close>

lemma validation_loop_eq:
  "validation_loop txs n acc =
     (n + int (length (filter is_invalid txs)), acc @ filter (\<lambda>tx. \<not> is_invalid tx) txs)"
  by (induction txs arbitrary: n acc) simp_all

lemma not_fle_zero: "\<not> fle p (Fin 0) \<longleftrightarrow> flt (Fin 0) p \<or> p = NaN"
  by (cases p) (auto simp: fle_def flt_def)

lemma not_invalid_iff:
  "\<not> is_invalid tx \<longleftrightarrow>
     0 < Quantity tx \<and> (flt (Fin 0) (UnitPrice tx) \<or> UnitPrice tx = NaN)
     \<and> startswith (TransactionID tx) (ustr ''T'')
     \<and> startswith (ProductID tx) (ustr ''P'')
     \<and> startswith (CustomerID tx) (ustr ''C'')"
  by (auto simp: is_invalid_def not_fle_zero)

lemma length_filter_split:
  "int (length xs) = int (length (filter P xs)) + int (length (filter (\<lambda>x. \<not> P x) xs))"
  by (induction xs) simp_all

text \<open>
  The function raises exactly when a record that passes the tests of Step 1 has a
  quantity beyond the range of the floats; otherwise it returns the records that pass the
  tests and the filters, with the counts of the records that each step removed.
\<close>

lemma validate_and_filter_raises:
  assumes "\<exists>tx \<in> set txs. \<not> is_invalid tx \<and> int_overflows (Quantity tx)"
  shows "validate_and_filter txs region lo hi = Inl OverflowError"
  using assms by (auto simp: validate_and_filter_def validation_loop_eq map_raise_amount)

lemma validate_and_filter_returns:
  assumes "\<not> (\<exists>tx \<in> set txs. \<not> is_invalid tx \<and> int_overflows (Quantity tx))"
  shows "validate_and_filter txs region lo hi =
     (let valid0 = filter (\<lambda>tx. \<not> is_invalid tx) txs;
          valid1 = (if region_given region
                    then filter (\<lambda>tx. Some (Region tx) = region) valid0 else valid0);
          valid2 = (case lo of None \<Rightarrow> valid1
                    | Some l \<Rightarrow> filter (\<lambda>tx. fle l (amount_value tx)) valid1);
          valid3 = (case hi of None \<Rightarrow> valid2
                    | Some h \<Rightarrow> filter (\<lambda>tx. fle (amount_value tx) h) valid2)
      in Inr (valid3, int (length (filter is_invalid txs)),
              \<lparr>total_input = int (length txs),
               invalid = int (length (filter is_invalid txs)),
               filtered_by_region = int (length valid0) - int (length valid1),
               filtered_by_amount = int (length valid1) - int (length valid3),
               final_count = int (length valid3)\<rparr>))"
proof -
  let ?valid0 = "filter (\<lambda>tx. \<not> is_invalid tx) txs"
  let ?valid1 = "if region_given region
                 then filter (\<lambda>tx. Some (Region tx) = region) ?valid0 else ?valid0"
  let ?valid2 = "case lo of None \<Rightarrow> ?valid1
                 | Some l \<Rightarrow> filter (\<lambda>tx. fle l (amount_value tx)) ?valid1"
  have ok0: "\<forall>tx \<in> set ?valid0. \<not> int_overflows (Quantity tx)" using assms by auto
  then have ok1: "\<forall>tx \<in> set ?valid1. \<not> int_overflows (Quantity tx)" by auto
  then have ok2: "\<forall>tx \<in> set ?valid2. \<not> int_overflows (Quantity tx)"
    by (cases lo) auto
  have step3: "map_raise amount ?valid0 = Inr (map amount_value ?valid0)"
    using ok0 by (simp add: map_raise_amount)
  have lo_step: "filter_raise (\<lambda>tx. with_amount tx (\<lambda>a. fle l a)) ?valid1 =
                   Inr (filter (\<lambda>tx. fle l (amount_value tx)) ?valid1)" for l
    using ok1 by (rule filter_raise_with_amount)
  have hi_step: "filter_raise (\<lambda>tx. with_amount tx (\<lambda>a. fle a h)) ?valid2 =
                   Inr (filter (\<lambda>tx. fle (amount_value tx) h) ?valid2)" for h
    using ok2 by (rule filter_raise_with_amount)
  show ?thesis
  proof (cases lo)
    case None
    show ?thesis
    proof (cases hi)
      case None
      with \<open>lo = None\<close> show ?thesis
        by (simp add: validate_and_filter_def validation_loop_eq step3 Let_def)
    next
      case (Some h)
      with \<open>lo = None\<close> hi_step [of h] show ?thesis
        by (simp add: validate_and_filter_def validation_loop_eq step3 Let_def)
    qed
  next
    case (Some l)
    show ?thesis
    proof (cases hi)
      case None
      with \<open>lo = Some l\<close> lo_step [of l] show ?thesis
        by (simp add: validate_and_filter_def validation_loop_eq step3 Let_def)
    next
      case (Some h)
      with \<open>lo = Some l\<close> lo_step [of l] hi_step [of h] show ?thesis
        by (simp add: validate_and_filter_def validation_loop_eq step3 Let_def)
    qed
  qed
qed

section \<open>Rounding\<close>

lemma pw_pos [simp]: "0 < (2::rat) powi e"
  by (simp add: zero_less_power_int)

lemma pw_add: "(2::rat) powi (a + b) = 2 powi a * 2 powi b"
  by (simp add: power_int_add)

lemma pw_diff: "(2::rat) powi (a - b) = 2 powi a / 2 powi b"
  by (simp add: power_int_diff)

lemma pw_mono: "a \<le> b \<Longrightarrow> (2::rat) powi a \<le> 2 powi b"
  by (simp add: power_int_increasing)

lemma pw_strict_mono: "a < b \<Longrightarrow> (2::rat) powi a < 2 powi b"
  by (simp add: power_int_strict_increasing)

lemma pw_le_iff: "(2::rat) powi a \<le> 2 powi b \<longleftrightarrow> a \<le> b"
  using pw_mono [of a b] pw_strict_mono [of b a] by (auto simp: not_le [symmetric])

lemma pw_nat: "0 \<le> e \<Longrightarrow> (2::rat) powi e = 2 ^ nat e"
  by (simp add: power_int_nonneg_exp)

lemma ilog2_bounds:
  assumes "x \<noteq> 0"
  shows "2 powi (ilog2 x) \<le> \<bar>x\<bar>" and "\<bar>x\<bar> < 2 powi (ilog2 x + 1)"
proof -
  obtain p q where pq: "quotient_of \<bar>x\<bar> = (p, q)" by (cases "quotient_of \<bar>x\<bar>")
  have q: "0 < q" using pq by (rule quotient_of_denom_pos)
  have x: "\<bar>x\<bar> = of_int p / of_int q" using pq by (rule quotient_of_div)
  have "0 < \<bar>x\<bar>" using assms by simp
  then have p: "0 < p" using q unfolding x by (simp add: zero_less_divide_iff)
  define a where "a = bitlen p"
  define b where "b = bitlen q"
  have a1: "1 \<le> a" and b1: "1 \<le> b"
    using p q by (simp_all add: a_def b_def bitlen_ge_iff_power)
  have "(2::int) ^ nat (a - 1) \<le> p" "p < 2 ^ nat a"
    using bitlen_bounds [OF p] by (simp_all add: a_def)
  then have "rat_of_int (2 ^ nat (a - 1)) \<le> of_int p" "rat_of_int p < of_int (2 ^ nat a)"
    by (simp_all only: of_int_le_iff of_int_less_iff)
  then have pa: "2 powi (a - 1) \<le> rat_of_int p" "rat_of_int p < 2 powi a"
    using a1 by (simp_all add: pw_nat)
  have "(2::int) ^ nat (b - 1) \<le> q" "q < 2 ^ nat b"
    using bitlen_bounds [OF q] by (simp_all add: b_def)
  then have "rat_of_int (2 ^ nat (b - 1)) \<le> of_int q" "rat_of_int q < of_int (2 ^ nat b)"
    by (simp_all only: of_int_le_iff of_int_less_iff)
  then have qb: "2 powi (b - 1) \<le> rat_of_int q" "rat_of_int q < 2 powi b"
    using b1 by (simp_all add: pw_nat)
  have qpos: "0 < rat_of_int q" using q by simp
  have upper: "\<bar>x\<bar> < 2 powi (a - b + 1)"
  proof -
    have "\<bar>x\<bar> < 2 powi a / of_int q"
      unfolding x using pa(2) qpos by (simp add: divide_strict_right_mono)
    also have "\<dots> \<le> 2 powi a / 2 powi (b - 1)"
      using qb(1) qpos by (intro divide_left_mono) simp_all
    also have "\<dots> = 2 powi (a - b + 1)"
      by (simp flip: pw_diff) (simp add: algebra_simps)
    finally show ?thesis .
  qed
  have lower: "2 powi (a - b - 1) \<le> \<bar>x\<bar>"
  proof -
    have "(2::rat) powi (a - b - 1) = 2 powi ((a - 1) - b)"
      by (rule arg_cong [where f = "\<lambda>e. 2 powi e"]) simp
    also have "\<dots> = 2 powi (a - 1) / 2 powi b" by (rule pw_diff)
    also have "\<dots> \<le> 2 powi (a - 1) / of_int q"
      using qb(2) qpos by (intro divide_left_mono) simp_all
    also have "\<dots> \<le> \<bar>x\<bar>"
      unfolding x using pa(1) qpos by (simp add: divide_right_mono)
    finally show ?thesis .
  qed
  have il: "ilog2 x = (if 2 powi (a - b) \<le> \<bar>x\<bar> then a - b else a - b - 1)"
    by (simp add: ilog2_def pq a_def b_def Let_def)
  show "2 powi (ilog2 x) \<le> \<bar>x\<bar>"
    using lower by (simp add: il)
  show "\<bar>x\<bar> < 2 powi (ilog2 x + 1)"
    using upper by (simp add: il)
qed

lemma ilog2_ge_iff:
  assumes "x \<noteq> 0"
  shows "k \<le> ilog2 x \<longleftrightarrow> 2 powi k \<le> \<bar>x\<bar>"
proof
  assume "k \<le> ilog2 x"
  then have "(2::rat) powi k \<le> 2 powi (ilog2 x)" by (rule pw_mono)
  then show "2 powi k \<le> \<bar>x\<bar>" using ilog2_bounds(1) [OF assms] by simp
next
  assume "2 powi k \<le> \<bar>x\<bar>"
  then have "(2::rat) powi k < 2 powi (ilog2 x + 1)"
    using ilog2_bounds(2) [OF assms] by simp
  then have "k < ilog2 x + 1"
    using pw_mono [of "ilog2 x + 1" k] by (cases "k < ilog2 x + 1") auto
  then show "k \<le> ilog2 x" by simp
qed

lemma exceeds_float_range_iff: "exceeds_float_range r \<longleftrightarrow> 2 ^ 1024 \<le> \<bar>r\<bar>"
proof (cases "r = 0")
  case True
  then show ?thesis by (simp add: exceeds_float_range_def)
next
  case False
  then show ?thesis
    using ilog2_ge_iff [OF False, of 1024] by (simp add: exceeds_float_range_def)
qed

lemma round_half_even_of_int [simp]: "round_half_even (of_int k) = k"
  by (simp add: round_half_even_def)

lemma round_half_even_error: "\<bar>of_int (round_half_even y) - y\<bar> \<le> 1 / 2"
proof -
  define d where "d = y - of_int \<lfloor>y\<rfloor>"
  have d: "0 \<le> d" "d < 1" unfolding d_def by linarith+
  have y: "y = of_int \<lfloor>y\<rfloor> + d" by (simp add: d_def)
  have r: "round_half_even y =
      (if d < 1 / 2 then \<lfloor>y\<rfloor> else if 1 / 2 < d then \<lfloor>y\<rfloor> + 1
       else if even \<lfloor>y\<rfloor> then \<lfloor>y\<rfloor> else \<lfloor>y\<rfloor> + 1)"
    by (simp add: round_half_even_def Let_def d_def)
  have "\<bar>of_int (round_half_even y) - (of_int \<lfloor>y\<rfloor> + d)\<bar> \<le> 1 / 2"
    unfolding r using d by (simp add: abs_if)
  then show ?thesis using y by simp
qed

lemma round_half_even_ge: "of_int k \<le> y \<Longrightarrow> k \<le> round_half_even y"
proof -
  assume "of_int k \<le> y"
  then have "k \<le> \<lfloor>y\<rfloor>" by (simp add: le_floor_iff)
  then show ?thesis by (auto simp: round_half_even_def Let_def)
qed

lemma round_half_even_le: "y \<le> of_int k \<Longrightarrow> round_half_even y \<le> k"
proof -
  assume le: "y \<le> of_int k"
  then have f: "\<lfloor>y\<rfloor> \<le> k" by (simp add: floor_le_iff)
  show ?thesis
  proof (cases "y = of_int \<lfloor>y\<rfloor>")
    case True
    then have "y - of_int \<lfloor>y\<rfloor> = 0" by simp
    then show ?thesis using f by (simp add: round_half_even_def Let_def)
  next
    case False
    then have "of_int \<lfloor>y\<rfloor> < y" using of_int_floor_le [of y] by linarith
    then have "rat_of_int \<lfloor>y\<rfloor> < of_int k" using le by simp
    then have "\<lfloor>y\<rfloor> + 1 \<le> k" by simp
    then show ?thesis using f by (auto simp: round_half_even_def Let_def)
  qed
qed

lemma round_nearest_0 [simp]: "round_nearest 0 = 0"
  by (simp add: round_nearest_def)

lemma round_nearest_error:
  assumes "x \<noteq> 0"
  shows "\<bar>round_nearest x - x\<bar> \<le> 2 powi (max (ilog2 x - 52) (- 1074)) / 2"
proof -
  define e where "e = max (ilog2 x - 52) (- 1074)"
  have r: "round_nearest x = of_int (round_half_even (x / 2 powi e)) * 2 powi e"
    using assms by (simp add: round_nearest_def e_def Let_def)
  have "round_nearest x - x = (of_int (round_half_even (x / 2 powi e)) - x / 2 powi e) * 2 powi e"
    by (simp add: r algebra_simps)
  then have "\<bar>round_nearest x - x\<bar> = \<bar>of_int (round_half_even (x / 2 powi e)) - x / 2 powi e\<bar> * 2 powi e"
    by (simp add: abs_mult)
  also have "\<dots> \<le> 1 / 2 * 2 powi e"
    using round_half_even_error [of "x / 2 powi e"] by (intro mult_right_mono) simp_all
  finally show ?thesis by (simp add: e_def)
qed

text \<open>In the range of the normal numbers the error is at most \<open>2^-53\<close> of the value.\<close>

lemma round_nearest_rel_error:
  assumes "x \<noteq> 0" and "- 1022 \<le> ilog2 x"
  shows "\<bar>round_nearest x - x\<bar> \<le> \<bar>x\<bar> / 2 ^ 53"
proof -
  have e: "max (ilog2 x - 52) (- 1074) = ilog2 x - 52" using assms(2) by simp
  have "\<bar>round_nearest x - x\<bar> \<le> 2 powi (ilog2 x - 52) / 2"
    using round_nearest_error [OF assms(1)] by (simp add: e)
  also have "\<dots> = 2 powi (ilog2 x) / 2 ^ 53"
    by (simp add: pw_diff)
  also have "\<dots> \<le> \<bar>x\<bar> / 2 ^ 53"
    using ilog2_bounds(1) [OF assms(1)] by (simp add: divide_right_mono)
  finally show ?thesis .
qed

text \<open>A number with a significand below \<open>2^53\<close> and an exponent of at least \<open>-1074\<close> is a float.\<close>

lemma round_nearest_exact:
  assumes "\<bar>m\<bar> < 2 ^ 53" and "- 1074 \<le> k"
  shows "round_nearest (of_int m * 2 powi k) = of_int m * 2 powi k"
proof (cases "m = 0")
  case True
  then show ?thesis by simp
next
  case False
  define x where "x = rat_of_int m * 2 powi k"
  have x0: "x \<noteq> 0" using False by (simp add: x_def)
  define e where "e = max (ilog2 x - 52) (- 1074)"
  have "rat_of_int \<bar>m\<bar> < of_int (2 ^ 53)" using assms(1) by (simp only: of_int_less_iff)
  then have "\<bar>x\<bar> < 2 ^ 53 * 2 powi k"
    by (simp add: x_def abs_mult)
  also have "\<dots> = 2 powi (53 + k)" by (simp add: pw_add)
  finally have "\<not> 2 powi (53 + k) \<le> \<bar>x\<bar>" by simp
  then have "\<not> 53 + k \<le> ilog2 x" using ilog2_ge_iff [OF x0] by simp
  then have ek: "e \<le> k" using assms(2) by (simp add: e_def)
  define j where "j = nat (k - e)"
  have "(2::rat) powi k = 2 powi (int j + e)" using ek by (simp add: j_def)
  also have "\<dots> = 2 ^ j * 2 powi e" by (simp only: pw_add power_int_of_nat)
  finally have pk: "(2::rat) powi k = 2 ^ j * 2 powi e" .
  have "x / 2 powi e = of_int (m * 2 ^ j)" by (simp add: x_def pk)
  then have "round_half_even (x / 2 powi e) = m * 2 ^ j"
    by (simp only: round_half_even_of_int)
  then have "of_int (round_half_even (x / 2 powi e)) * 2 powi e = x"
    by (simp add: x_def pk)
  then show ?thesis
    using x0 unfolding x_def [symmetric] by (simp add: round_nearest_def e_def Let_def)
qed

lemma round_nearest_of_int: "\<bar>n\<bar> < 2 ^ 53 \<Longrightarrow> round_nearest (of_int n) = of_int n"
  using round_nearest_exact [of n 0] by simp

lemma round_nearest_nonneg: "0 \<le> x \<Longrightarrow> 0 \<le> round_nearest x"
proof (cases "x = 0")
  case True
  then show ?thesis by simp
next
  case False
  assume "0 \<le> x"
  define e where "e = max (ilog2 x - 52) (- 1074)"
  have "rat_of_int 0 \<le> x / 2 powi e" using \<open>0 \<le> x\<close> by simp
  then have "0 \<le> round_half_even (x / 2 powi e)" by (rule round_half_even_ge)
  then show ?thesis using False by (simp add: round_nearest_def e_def Let_def)
qed

lemma round_nearest_nonpos: "x \<le> 0 \<Longrightarrow> round_nearest x \<le> 0"
proof (cases "x = 0")
  case True
  then show ?thesis by simp
next
  case False
  assume "x \<le> 0"
  define e where "e = max (ilog2 x - 52) (- 1074)"
  have "x / 2 powi e \<le> rat_of_int 0" using \<open>x \<le> 0\<close> by (simp add: divide_le_0_iff)
  then have "round_half_even (x / 2 powi e) \<le> 0" by (rule round_half_even_le)
  then show ?thesis
    using False by (simp add: round_nearest_def e_def Let_def mult_le_0_iff)
qed

text \<open>Every rounded number is a multiple of \<open>2^-1074\<close>.\<close>

lemma on_grid_0 [simp]: "on_grid 0"
  by (simp add: on_grid_def)

lemma on_grid_add: "on_grid a \<Longrightarrow> on_grid b \<Longrightarrow> on_grid (a + b)"
  by (simp add: on_grid_def distrib_right)

lemma on_grid_round_nearest: "on_grid (round_nearest x)"
proof (cases "x = 0")
  case True
  then show ?thesis by simp
next
  case False
  define e where "e = max (ilog2 x - 52) (- 1074)"
  define j where "j = nat (e + 1074)"
  have "- 1074 \<le> e" by (simp add: e_def)
  then have "e = int j + (- 1074)" by (simp add: j_def)
  then have "(2::rat) powi e = 2 powi (int j + (- 1074))" by simp
  also have "\<dots> = 2 ^ j * 2 powi (- 1074)" by (simp only: pw_add power_int_of_nat)
  finally have pe0: "(2::rat) powi e = 2 ^ j * 2 powi (- 1074)" .
  have one: "(2::rat) powi (- 1074) * 2 ^ 1074 = 1"
    by (simp add: power_int_minus)
  have "(2::rat) powi e * 2 ^ 1074 = 2 ^ j * (2 powi (- 1074) * 2 ^ 1074)"
    by (simp only: pe0 mult.assoc)
  then have pe: "(2::rat) powi e * 2 ^ 1074 = 2 ^ j"
    by (simp only: one mult_1_right)
  have "round_nearest x * 2 ^ 1074 =
          of_int (round_half_even (x / 2 powi e)) * (2 powi e * 2 ^ 1074)"
    using False by (simp add: round_nearest_def e_def Let_def)
  also have "\<dots> = of_int (round_half_even (x / 2 powi e) * 2 ^ j)"
    by (simp only: pe of_int_mult of_int_power of_int_numeral)
  finally show ?thesis by (simp add: on_grid_def)
qed

lemma round_nearest_ge_pow:
  assumes "x \<noteq> 0" and "- 1022 \<le> ilog2 x"
  shows "2 powi (ilog2 x) \<le> \<bar>round_nearest x\<bar>"
proof -
  define e where "e = ilog2 x - 52"
  have e: "max (ilog2 x - 52) (- 1074) = e" using assms(2) by (simp add: e_def)
  have r: "round_nearest x = of_int (round_half_even (x / 2 powi e)) * 2 powi e"
    using assms(1) by (simp add: round_nearest_def e Let_def)
  have "ilog2 x = 52 + e" by (simp add: e_def)
  then have "(2::rat) powi (ilog2 x) = 2 powi (52 + e)" by simp
  also have "\<dots> = 2 ^ 52 * 2 powi e" by (simp only: pw_add) simp
  finally have p: "(2::rat) powi (ilog2 x) = 2 ^ 52 * 2 powi e" .
  have lo: "2 ^ 52 * 2 powi e \<le> \<bar>x\<bar>"
    using ilog2_bounds(1) [OF assms(1)] by (simp only: p)
  show ?thesis
  proof (cases "0 < x")
    case True
    then have "2 ^ 52 * 2 powi e \<le> x" using lo by simp
    then have "2 ^ 52 \<le> x / 2 powi e" by (simp add: pos_le_divide_eq)
    then have "rat_of_int (2 ^ 52) \<le> x / 2 powi e" by simp
    then have "2 ^ 52 \<le> round_half_even (x / 2 powi e)" by (rule round_half_even_ge)
    then have "rat_of_int (2 ^ 52) \<le> of_int (round_half_even (x / 2 powi e))"
      by (simp only: of_int_le_iff)
    then have "rat_of_int (2 ^ 52) * 2 powi e \<le> round_nearest x"
      unfolding r by (intro mult_right_mono) simp_all
    then have "2 powi (ilog2 x) \<le> round_nearest x" by (simp add: p)
    then show ?thesis by simp
  next
    case False
    then have "x < 0" using assms(1) by simp
    then have "2 ^ 52 * 2 powi e \<le> - x" using lo by simp
    then have "x \<le> - (2 ^ 52) * 2 powi e" by simp
    then have "x / 2 powi e \<le> - (2 ^ 52)" by (simp add: pos_divide_le_eq)
    then have "x / 2 powi e \<le> rat_of_int (- (2 ^ 52))" by simp
    then have "round_half_even (x / 2 powi e) \<le> - (2 ^ 52)" by (rule round_half_even_le)
    then have "of_int (round_half_even (x / 2 powi e)) \<le> rat_of_int (- (2 ^ 52))"
      by (simp only: of_int_le_iff)
    then have "round_nearest x \<le> rat_of_int (- (2 ^ 52)) * 2 powi e"
      unfolding r by (intro mult_right_mono) simp_all
    then have "round_nearest x \<le> - (2 powi (ilog2 x))" by (simp add: p)
    then show ?thesis by simp
  qed
qed

lemma int_overflows_iff: "int_overflows n \<longleftrightarrow> 2 ^ 1024 \<le> \<bar>round_nearest (of_int n)\<bar>"
  by (simp add: int_overflows_def exceeds_float_range_iff)

text \<open>Every integer below \<open>2^53\<close> is a float; an integer from \<open>2^1024\<close> on has none.\<close>

lemma not_int_overflows_small: "\<bar>n\<bar> < 2 ^ 53 \<Longrightarrow> \<not> int_overflows n"
proof -
  assume a: "\<bar>n\<bar> < 2 ^ 53"
  then have "rat_of_int \<bar>n\<bar> < of_int (2 ^ 53)" by (simp only: of_int_less_iff)
  then have "\<bar>rat_of_int n\<bar> < 2 ^ 53" by simp
  also have "\<dots> \<le> 2 ^ 1024" by (rule power_increasing) simp_all
  finally show ?thesis using a by (simp add: int_overflows_iff round_nearest_of_int)
qed

lemma int_overflows_big:
  assumes "2 ^ 1024 \<le> \<bar>n\<bar>"
  shows "int_overflows n"
proof -
  define x where "x = rat_of_int n"
  have "rat_of_int (2 ^ 1024) \<le> of_int \<bar>n\<bar>" using assms by (simp only: of_int_le_iff)
  then have big: "2 ^ 1024 \<le> \<bar>x\<bar>" by (simp add: x_def)
  have "(0::rat) < 2 ^ 1024" by simp
  then have x0: "x \<noteq> 0" using big by auto
  have "(2::rat) powi 1024 \<le> \<bar>x\<bar>" using big by simp
  then have il: "1024 \<le> ilog2 x" using ilog2_ge_iff [OF x0] by simp
  then have "(2::rat) powi 1024 \<le> 2 powi (ilog2 x)" by (rule pw_mono)
  also have "\<dots> \<le> \<bar>round_nearest x\<bar>" using x0 il by (intro round_nearest_ge_pow) simp_all
  finally show ?thesis by (simp add: int_overflows_iff x_def)
qed

text \<open>The sum of two floats is rounded with an error of at most \<open>2^-53\<close> of the sum.\<close>

lemma round_nearest_grid_rel_error:
  assumes "on_grid s"
  shows "\<bar>round_nearest s - s\<bar> \<le> \<bar>s\<bar> / 2 ^ 53"
proof (cases "s = 0")
  case True
  then show ?thesis by simp
next
  case False
  show ?thesis
  proof (cases "- 1022 \<le> ilog2 s")
    case True
    with False show ?thesis by (rule round_nearest_rel_error)
  next
    case small: False
    then have "\<not> 2 powi (- 1022) \<le> \<bar>s\<bar>" using ilog2_ge_iff [OF False] by simp
    then have lt: "\<bar>s\<bar> < 2 powi (- 1022)" by simp
    obtain m where m: "s * 2 ^ 1074 = of_int m"
      using assms by (auto simp: on_grid_def elim: Ints_cases)
    then have s: "s = of_int m * 2 powi (- 1074)"
      by (simp add: power_int_minus field_simps)
    have "\<bar>rat_of_int m\<bar> = \<bar>s\<bar> * 2 ^ 1074" by (simp add: m [symmetric] abs_mult)
    also have "\<dots> < 2 powi (- 1022) * 2 ^ 1074" using lt by simp
    also have "\<dots> = 2 powi (- 1022) * 2 powi 1074" by simp
    also have "\<dots> = 2 ^ 52" by (simp only: pw_add [symmetric]) simp
    finally have "\<bar>rat_of_int m\<bar> < 2 ^ 52" .
    then have "rat_of_int \<bar>m\<bar> < of_int (2 ^ 52)" by simp
    then have "\<bar>m\<bar> < 2 ^ 52" by (simp only: of_int_less_iff)
    then have "\<bar>m\<bar> < 2 ^ 53" by simp
    then have "round_nearest s = s"
      unfolding s by (rule round_nearest_exact) simp
    then show ?thesis by simp
  qed
qed

lemma rnd_of_int: "\<bar>m\<bar> < 2 ^ 53 \<Longrightarrow> rnd (of_int m) = Fin (of_int m)"
  using not_int_overflows_small [of m]
  by (simp add: rnd_def round_nearest_of_int int_overflows_def Let_def)

lemma amount_value_examples:
  "amount_value sale_mouse = Fin 1000" "amount_value sale_kb = Fin 100"
  by code_simp+

lemma not_int_overflows_examples:
  "\<not> int_overflows 1" "\<not> int_overflows 2" "\<not> int_overflows 0"
  by (simp_all add: not_int_overflows_small)

lemma is_invalid_examples:
  "\<not> is_invalid sale_mouse" "\<not> is_invalid sale_kb" "\<not> is_invalid sale_nan"
  "is_invalid (sale_kb\<lparr>Quantity := 0\<rparr>)"
  "is_invalid (sale_kb\<lparr>UnitPrice := Fin (- 5)\<rparr>)"
  "is_invalid (sale_kb\<lparr>UnitPrice := Fin 0\<rparr>)"
  "is_invalid (sale_kb\<lparr>CustomerID := ustr ''X9''\<rparr>)"
  by (simp_all add: is_invalid_def sale_mouse_def sale_kb_def sale_nan_def fle_def)


lemma validate_no_filters:
  assumes "\<not> (\<exists>tx \<in> set txs. \<not> is_invalid tx \<and> int_overflows (Quantity tx))"
  shows "validate_and_filter txs None None None =
     Inr (filter (\<lambda>tx. \<not> is_invalid tx) txs, int (length (filter is_invalid txs)),
          \<lparr>total_input = int (length txs), invalid = int (length (filter is_invalid txs)),
           filtered_by_region = 0, filtered_by_amount = 0,
           final_count = int (length (filter (\<lambda>tx. \<not> is_invalid tx) txs))\<rparr>)"
  using validate_and_filter_returns [OF assms, of None None None] by (simp add: Let_def)

text \<open>
  A record whose unit price is \<^verbatim>\<open>nan\<close> passes the tests of Step 1, since
  \<^verbatim>\<open>nan <= 0\<close> is false: the returned list holds a record whose unit price is not
  greater than zero.
\<close>

theorem validate_and_filter_keeps_nan_price:
  "validate_and_filter [sale_nan] None None None =
     Inr ([sale_nan], 0,
          \<lparr>total_input = 1, invalid = 0, filtered_by_region = 0, filtered_by_amount = 0,
           final_count = 1\<rparr>)
   \<and> UnitPrice sale_nan = NaN
   \<and> \<not> flt (Fin 0) (UnitPrice sale_nan)"
proof -
  have q: "Quantity sale_nan = 1" and p: "UnitPrice sale_nan = NaN"
    by (simp_all add: sale_nan_def)
  have "\<not> (\<exists>tx \<in> set [sale_nan]. \<not> is_invalid tx \<and> int_overflows (Quantity tx))"
    by (simp add: q not_int_overflows_examples)
  from validate_no_filters [OF this] show ?thesis
    by (simp add: is_invalid_examples p)
qed

text \<open>
  Claim C5, as the code has it. Called without optional filters,
  \<^verbatim>\<open>validate_and_filter\<close> raises \<^verbatim>\<open>OverflowError\<close> when a record that passes the
  tests has a quantity beyond the range of the floats (the product of Step 3 raises).
  Otherwise it returns exactly the input transactions, in input order and unchanged, that
  have a positive quantity, a unit price that is greater than zero or \<^verbatim>\<open>nan\<close>, and
  the three prefixes \<^verbatim>\<open>T\<close>, \<^verbatim>\<open>P\<close> and \<^verbatim>\<open>C\<close>. No returned record has a
  quantity or a unit price below or equal to zero, and the invalid count is the number of
  records that were dropped.
\<close>

theorem validate_and_filter_keeps_exactly_valid:
  "(if \<exists>tx \<in> set txs. \<not> is_invalid tx \<and> int_overflows (Quantity tx)
    then validate_and_filter txs None None None = Inl OverflowError
    else \<exists>valid invalid_count summary.
           validate_and_filter txs None None None = Inr (valid, invalid_count, summary)
           \<and> valid =
               filter (\<lambda>tx. 0 < Quantity tx
                           \<and> (flt (Fin 0) (UnitPrice tx) \<or> UnitPrice tx = NaN)
                           \<and> startswith (TransactionID tx) (ustr ''T'')
                           \<and> startswith (ProductID tx) (ustr ''P'')
                           \<and> startswith (CustomerID tx) (ustr ''C'')) txs
           \<and> (\<forall>tx \<in> set valid. \<not> Quantity tx \<le> 0 \<and> \<not> fle (UnitPrice tx) (Fin 0))
           \<and> invalid_count = int (length txs) - int (length valid))"
proof (cases "\<exists>tx \<in> set txs. \<not> is_invalid tx \<and> int_overflows (Quantity tx)")
  case True
  then show ?thesis using validate_and_filter_raises [OF True, of None None None] by simp
next
  case False
  have 1: "filter (\<lambda>tx. \<not> is_invalid tx) txs =
             filter (\<lambda>tx. 0 < Quantity tx
                           \<and> (flt (Fin 0) (UnitPrice tx) \<or> UnitPrice tx = NaN)
                           \<and> startswith (TransactionID tx) (ustr ''T'')
                           \<and> startswith (ProductID tx) (ustr ''P'')
                           \<and> startswith (CustomerID tx) (ustr ''C'')) txs"
    by (simp only: not_invalid_iff)
  have 2: "\<forall>tx \<in> set (filter (\<lambda>tx. \<not> is_invalid tx) txs).
             \<not> Quantity tx \<le> 0 \<and> \<not> fle (UnitPrice tx) (Fin 0)"
    by (auto simp: is_invalid_def)
  have 3: "int (length (filter is_invalid txs)) =
             int (length txs) - int (length (filter (\<lambda>tx. \<not> is_invalid tx) txs))"
    using length_filter_split [of txs is_invalid] by simp
  show ?thesis
    using False 1 2 3 by (simp only: validate_no_filters [OF False] if_False) blast
qed

theorem validate_and_filter_keeps_exactly_valid_witness:
  "\<exists>summary.
     validate_and_filter
       [sale_mouse, sale_kb\<lparr>Quantity := 0\<rparr>, sale_nan, sale_kb\<lparr>UnitPrice := Fin (- 5)\<rparr>,
        sale_kb\<lparr>UnitPrice := Fin 0\<rparr>, sale_kb\<lparr>CustomerID := ustr ''X9''\<rparr>] None None None =
       Inr ([sale_mouse, sale_nan], 4, summary)"
proof -
  let ?txs = "[sale_mouse, sale_kb\<lparr>Quantity := 0\<rparr>, sale_nan, sale_kb\<lparr>UnitPrice := Fin (- 5)\<rparr>,
               sale_kb\<lparr>UnitPrice := Fin 0\<rparr>, sale_kb\<lparr>CustomerID := ustr ''X9''\<rparr>]"
  have q: "Quantity sale_mouse = 2" "Quantity sale_nan = 1"
    by (simp_all add: sale_mouse_def sale_nan_def)
  have no: "\<not> (\<exists>tx \<in> set ?txs. \<not> is_invalid tx \<and> int_overflows (Quantity tx))"
    by (simp add: is_invalid_examples q not_int_overflows_examples)
  have keep: "filter (\<lambda>tx. \<not> is_invalid tx) ?txs = [sale_mouse, sale_nan]"
    by (simp add: is_invalid_examples)
  show ?thesis
    using validate_and_filter_keeps_exactly_valid [of ?txs] no
    by (simp only: if_False keep [unfolded not_invalid_iff]) auto
qed

text \<open>A quantity of \<open>2^1024\<close> has no float: the amounts of Step 3 cannot be computed.\<close>

lemma validate_and_filter_overflow_example:
  "validate_and_filter [sale_mouse\<lparr>Quantity := 2 ^ 1024\<rparr>] region lo hi = Inl OverflowError"
proof -
  have "\<not> is_invalid (sale_mouse\<lparr>Quantity := 2 ^ 1024\<rparr>)"
    by (simp add: is_invalid_def sale_mouse_def fle_def)
  moreover have "int_overflows (2 ^ 1024)" by (rule int_overflows_big) simp
  ultimately show ?thesis by (intro validate_and_filter_raises) simp
qed

text \<open>
  Claim C8. For every input list and every combination of the optional region, minimum
  and maximum filters, the call either raises \<^verbatim>\<open>OverflowError\<close>, when a record that
  passes the tests has a quantity beyond the range of the floats, and returns no summary,
  or returns a summary that satisfies
  \<open>final_count = total_input - invalid - filtered_by_region - filtered_by_amount\<close>, where
  \<open>final_count\<close> is the length of the returned list of valid transactions,
  \<open>total_input\<close> is the length of the input list and \<open>invalid\<close> is the invalid
  count that is returned next to the summary.
\<close>

theorem filter_summary_accounting:
  "(if \<exists>tx \<in> set txs. \<not> is_invalid tx \<and> int_overflows (Quantity tx)
    then validate_and_filter txs region lo hi = Inl OverflowError
    else \<exists>valid invalid_count summary.
           validate_and_filter txs region lo hi = Inr (valid, invalid_count, summary)
           \<and> final_count summary =
               total_input summary - invalid summary - filtered_by_region summary
               - filtered_by_amount summary
           \<and> final_count summary = int (length valid)
           \<and> total_input summary = int (length txs)
           \<and> invalid summary = invalid_count)"
proof (cases "\<exists>tx \<in> set txs. \<not> is_invalid tx \<and> int_overflows (Quantity tx)")
  case True
  then show ?thesis using validate_and_filter_raises [OF True, of region lo hi] by simp
next
  case False
  show ?thesis
    using False length_filter_split [of txs is_invalid]
    by (simp add: validate_and_filter_returns [OF False] Let_def)
qed

theorem filter_summary_accounting_witness:
  "validate_and_filter [sale_mouse, sale_kb, sale_kb\<lparr>Quantity := 0\<rparr>]
     (Some (ustr ''North'')) (Some (Fin 10)) (Some (Fin 500)) =
     Inr ([], 1, \<lparr>total_input = 3, invalid = 1, filtered_by_region = 1,
                  filtered_by_amount = 1, final_count = 0\<rparr>)
   \<and> (0::int) = 3 - 1 - 1 - 1"
proof -
  let ?txs = "[sale_mouse, sale_kb, sale_kb\<lparr>Quantity := 0\<rparr>]"
  have q: "Quantity sale_mouse = 2" "Quantity sale_kb = 1"
    by (simp_all add: sale_mouse_def sale_kb_def)
  have reg: "Region sale_mouse = ustr ''North''" "Region sale_kb = ustr ''South''"
    by (simp_all add: sale_mouse_def sale_kb_def)
  have no: "\<not> (\<exists>tx \<in> set ?txs. \<not> is_invalid tx \<and> int_overflows (Quantity tx))"
    by (simp add: is_invalid_examples q not_int_overflows_examples)
  have run: "validate_and_filter ?txs (Some (ustr ''North'')) (Some (Fin 10)) (Some (Fin 500)) =
     Inr ([], 1, \<lparr>total_input = 3, invalid = 1, filtered_by_region = 1,
                  filtered_by_amount = 1, final_count = 0\<rparr>)"
    by (simp add: validate_and_filter_returns [OF no] is_invalid_examples reg
        amount_value_examples)
  show ?thesis
    using filter_summary_accounting
      [of ?txs "Some (ustr ''North'')" "Some (Fin 10)" "Some (Fin 500)"] no
    by (simp only: if_False run) simp
qed

section \<open>Empty input\<close>

text \<open>
  Claim C1 says that on the empty transaction list no aggregation raises and that the peak
  day is absent. On the empty list the total revenue is 0, the region-wise sales and the
  top products are empty, but \<^verbatim>\<open>find_peak_sales_day\<close> takes \<^verbatim>\<open>max\<close> of an empty
  sequence and raises \<^verbatim>\<open>ValueError\<close>.
\<close>

theorem empty_input_peak_day_raises:
  "calculate_total_revenue ([] :: transaction list) = Inr (Fin 0)
   \<and> region_wise_sales ([] :: transaction list) = Some (Inr [])
   \<and> top_selling_products ([] :: transaction list) n = Inr []
   \<and> find_peak_sales_day ([] :: transaction list) = Inl ValueError"
  by (simp add: calculate_total_revenue_def region_wise_sales_def region_totals_def
      sorted_reverse_float_def top_selling_products_def product_totals_def slice_to_def
      find_peak_sales_day_def daily_sales_trend_def daily_totals_def)

text \<open>The report writer guards the same maximum: without a day its best day is absent.\<close>

lemma report_best_day_empty: "report_best_day ([] :: transaction list) = Inr None"
  by (simp add: report_best_day_def report_daily_sales_def)

section \<open>The enriched data snapshot\<close>

lemma str_int_1: "str_int 1 = ustr ''1''"
  by (simp add: str_int_def digit_char_def ustr_def)

text \<open>
  Claim C2 says that a null enrichment field is written as the empty string and
  \<^verbatim>\<open>API_Match\<close> as a boolean literal. The definition of \<^verbatim>\<open>save_enriched_data\<close>
  that is in effect applies \<^verbatim>\<open>str\<close> to every field, so the row of an unmatched
  transaction carries the text \<^verbatim>\<open>None\<close> three times, followed by \<^verbatim>\<open>False\<close>.
\<close>

theorem save_enriched_data_renders_None:
  "save_enriched_data rt [no_match sale_kb] =
     [ustr ''TransactionID|Date|ProductID|ProductName|Quantity|UnitPrice|CustomerID|Region|API_Category|API_Brand|API_Rating|API_Match'' @ newline,
      ustr ''T2|2024-01-01|P999|KB|1|'' @ str_float rt (Fin 100)
        @ ustr ''|C2|South|None|None|None|False'' @ newline]"
  by (simp add: save_enriched_data_def enriched_row_def header_def no_match_def set_api_def
      sale_kb_def str_int_1 str_bool_def ustr_def)

text \<open>In general, for the definition in effect and for the definition it shadows:\<close>

lemma enriched_row_null_fields:
  "API_Category tx = None \<Longrightarrow> enriched_row rt tx ! 8 = ustr ''None''"
  "API_Brand tx = None \<Longrightarrow> enriched_row rt tx ! 9 = ustr ''None''"
  "API_Rating tx = None \<Longrightarrow> enriched_row rt tx ! 10 = ustr ''None''"
  "enriched_row rt tx ! 11 = (if API_Match tx then ustr ''True'' else ustr ''False'')"
  by (simp_all add: enriched_row_def str_bool_def)

lemma enriched_row_shadowed_null_fields:
  "API_Category tx = None \<Longrightarrow> enriched_row_shadowed rt tx ! 8 = []"
  "API_Brand tx = None \<Longrightarrow> enriched_row_shadowed rt tx ! 9 = []"
  "API_Rating tx = None \<Longrightarrow> enriched_row_shadowed rt tx ! 10 = []"
  "enriched_row_shadowed rt tx ! 11 = (if API_Match tx then ustr ''True'' else ustr ''False'')"
  by (simp_all add: enriched_row_shadowed_def str_bool_def)

section \<open>Enrichment of one record\<close>

lemma decimal_value_ascii:
  "decimal_value rt 80 = None" "decimal_value rt 48 = Some 0"
  by (simp_all add: decimal_value_def)

lemma search_digits_P0: "search_digits rt (ustr ''P0'') = Some (ustr ''0'')"
  by (simp add: search_digits_def is_digit_def ustr_def decimal_value_ascii)

lemma py_int_0: "py_int rt (ustr ''0'') = Inr 0"
  by (simp add: py_int_def int_of_digits_def ustr_def decimal_value_ascii)

text \<open>
  Claim C4 says that a record is matched whenever the number extracted from its product id
  is a key of the catalog index. The condition \<^verbatim>\<open>if product_id and ...\<close> is false for
  the number 0: the product id \<^verbatim>\<open>P0\<close> yields 0, the catalog has the key 0, and the
  record is left unmatched, with every interpreter.
\<close>

theorem enrich_record_id_zero_unmatched:
  "extract_product_id rt (sale_mouse\<lparr>ProductID := ustr ''P0''\<rparr>) = Inr (Some 0)
   \<and> 0 \<in> dom [0 \<mapsto> Dict info]
   \<and> enrich_record rt [0 \<mapsto> Dict info] (sale_mouse\<lparr>ProductID := ustr ''P0''\<rparr>) =
       no_match (sale_mouse\<lparr>ProductID := ustr ''P0''\<rparr>)
   \<and> API_Match (enrich_record rt [0 \<mapsto> Dict info] (sale_mouse\<lparr>ProductID := ustr ''P0''\<rparr>)) = False"
  by (simp add: enrich_record_def enrich_try_def extract_product_id_def search_digits_P0
      py_int_0 no_match_def set_api_def)

text \<open>
  The extracted digits are the first maximal run of digits, and for every other number
  the record is enriched as the claim says.
\<close>

lemma search_digits_Some_iff:
  "search_digits rt s = Some ds \<longleftrightarrow>
     (\<exists>pre post. s = pre @ ds @ post \<and> ds \<noteq> [] \<and> (\<forall>c \<in> set pre. \<not> is_digit rt c)
        \<and> (\<forall>c \<in> set ds. is_digit rt c) \<and> (post = [] \<or> \<not> is_digit rt (hd post)))"
proof
  assume "search_digits rt s = Some ds"
  then have ne: "dropWhile (\<lambda>c. \<not> is_digit rt c) s \<noteq> []"
    and ds: "ds = takeWhile (is_digit rt) (dropWhile (\<lambda>c. \<not> is_digit rt c) s)"
    by (auto simp: search_digits_def Let_def split: if_splits)
  let ?pre = "takeWhile (\<lambda>c. \<not> is_digit rt c) s"
  let ?rest = "dropWhile (\<lambda>c. \<not> is_digit rt c) s"
  let ?post = "dropWhile (is_digit rt) ?rest"
  have "s = ?pre @ ds @ ?post" by (simp add: ds)
  moreover have "ds \<noteq> []"
    using ne hd_dropWhile [OF ne] by (cases ?rest) (auto simp: ds)
  moreover have "\<forall>c \<in> set ?pre. \<not> is_digit rt c" by (auto dest: set_takeWhileD)
  moreover have "\<forall>c \<in> set ds. is_digit rt c" by (auto simp: ds dest: set_takeWhileD)
  moreover have "?post = [] \<or> \<not> is_digit rt (hd ?post)"
    using hd_dropWhile [of "is_digit rt" ?rest] by auto
  ultimately show "\<exists>pre post. s = pre @ ds @ post \<and> ds \<noteq> []
        \<and> (\<forall>c \<in> set pre. \<not> is_digit rt c)
        \<and> (\<forall>c \<in> set ds. is_digit rt c) \<and> (post = [] \<or> \<not> is_digit rt (hd post))"
    by blast
next
  assume "\<exists>pre post. s = pre @ ds @ post \<and> ds \<noteq> [] \<and> (\<forall>c \<in> set pre. \<not> is_digit rt c)
        \<and> (\<forall>c \<in> set ds. is_digit rt c) \<and> (post = [] \<or> \<not> is_digit rt (hd post))"
  then obtain pre post where s: "s = pre @ ds @ post" and ne: "ds \<noteq> []"
    and pre: "\<forall>c \<in> set pre. \<not> is_digit rt c" and dig: "\<forall>c \<in> set ds. is_digit rt c"
    and post: "post = [] \<or> \<not> is_digit rt (hd post)" by blast
  have hd: "is_digit rt (hd ds)" using ne dig by (cases ds) auto
  have 1: "dropWhile (\<lambda>c. \<not> is_digit rt c) s = ds @ post"
    unfolding s using pre ne hd by (cases ds) (auto simp: dropWhile_append3 dropWhile_append)
  have 2: "takeWhile (is_digit rt) (ds @ post) = ds"
    using dig post by (cases post) (auto simp: takeWhile_append)
  show "search_digits rt s = Some ds"
    using ne by (simp add: search_digits_def 1 2)
qed

lemma enrich_record_no_digits:
  "search_digits rt (ProductID tx) = None \<Longrightarrow> enrich_record rt pm tx = no_match tx"
  by (simp add: enrich_record_def enrich_try_def extract_product_id_def)

lemma enrich_record_matched:
  "search_digits rt (ProductID tx) = Some ds \<Longrightarrow> py_int rt ds = Inr n \<Longrightarrow> n \<noteq> 0
     \<Longrightarrow> pm n = Some (Dict info)
     \<Longrightarrow> enrich_record rt pm tx = set_api tx (category info) (brand info) (rating info) True"
  by (auto simp add: enrich_record_def enrich_try_def extract_product_id_def)

lemma enrich_record_absent:
  "search_digits rt (ProductID tx) = Some ds \<Longrightarrow> py_int rt ds = Inr n \<Longrightarrow> pm n = None
     \<Longrightarrow> enrich_record rt pm tx = no_match tx"
  by (auto simp add: enrich_record_def enrich_try_def extract_product_id_def)

lemma enrich_record_error:
  "search_digits rt (ProductID tx) = Some ds \<Longrightarrow> py_int rt ds = Inr n \<Longrightarrow> n \<noteq> 0
     \<Longrightarrow> pm n = Some NotADict
     \<Longrightarrow> enrich_try rt pm tx = Inl AttributeError \<and> enrich_record rt pm tx = no_match tx"
  by (auto simp add: enrich_record_def enrich_try_def extract_product_id_def)

lemma enrich_record_too_many_digits:
  "search_digits rt (ProductID tx) = Some ds \<Longrightarrow> py_int rt ds = Inl e
     \<Longrightarrow> enrich_try rt pm tx = Inl e \<and> enrich_record rt pm tx = no_match tx"
  by (auto simp add: enrich_record_def enrich_try_def extract_product_id_def)

section \<open>Enrichment of a batch\<close>

lemma enrich_loop_eq: "enrich_loop rt pm txs acc = acc @ map (enrich_record rt pm) txs"
  by (induction txs arbitrary: acc) simp_all

text \<open>
  Claim C9 says that \<^verbatim>\<open>enrich_sales_data\<close> returns, for every transaction list, a list
  of the same length in the same order. For the empty list it writes the header of the
  snapshot file and then divides by \<^verbatim>\<open>len(enriched)\<close>, which is 0, in the console
  summary: \<^verbatim>\<open>ZeroDivisionError\<close> leaves the function and no list is returned.
\<close>

theorem enrich_sales_data_empty_raises:
  "snd (enrich_sales_data rt [] pm) = Inl ZeroDivisionError
   \<and> fst (enrich_sales_data rt [] pm) = [join (ustr ''|'') header @ newline]"
  by (simp add: enrich_sales_data_def save_enriched_data_def)

text \<open>
  On a nonempty list the function returns, and the output is as the claim says: one record
  per input record, in input order, the original fields unchanged, also for a record whose
  enrichment raised.
\<close>

lemma truncate_set_api: "transaction.truncate (set_api tx c b r m) = tx"
  by (simp add: set_api_def transaction.truncate_def)

lemma truncate_enrich_record: "transaction.truncate (enrich_record rt pm tx) = tx"
  by (simp add: enrich_record_def enrich_try_def no_match_def truncate_set_api Let_def
      split: sum.splits mapping_value.splits)

lemma enrich_sales_data_nonempty:
  "txs \<noteq> [] \<Longrightarrow> snd (enrich_sales_data rt txs pm) = Inr (map (enrich_record rt pm) txs)"
  by (simp add: enrich_sales_data_def enrich_loop_eq Let_def)

lemma enrich_sales_data_preserves:
  assumes "txs \<noteq> []"
  shows "\<exists>out. snd (enrich_sales_data rt txs pm) = Inr out \<and> length out = length txs
           \<and> (\<forall>i < length txs. transaction.truncate (out ! i) = txs ! i
                \<and> out ! i = enrich_record rt pm (txs ! i))"
  using assms by (simp add: enrich_sales_data_nonempty truncate_enrich_record)

section \<open>Low performing products in the report\<close>

lemma sum_list_pos_nonempty:
  "ts \<noteq> [] \<Longrightarrow> (\<forall>t \<in> set ts. 0 < (f t :: int)) \<Longrightarrow> 0 < sum_list (map f ts)"
proof (induction ts)
  case Nil
  then show ?case by simp
next
  case (Cons t ts)
  have "0 \<le> sum_list (map f ts)"
    using Cons.prems(2) by (intro sum_list_nonneg) (auto simp: less_imp_le)
  moreover have "0 < f t" using Cons.prems(2) by simp
  ultimately show ?case by simp
qed

text \<open>
  What passes validation: every returned record has a positive quantity within the range
  of the floats, whatever the filters.
\<close>

lemma validated_quantities:
  assumes "validate_and_filter raw region lo hi = Inr (txs, n, summary)"
  shows "\<forall>tx \<in> set txs. 0 < Quantity tx \<and> \<not> int_overflows (Quantity tx)"
proof -
  have no: "\<not> (\<exists>tx \<in> set raw. \<not> is_invalid tx \<and> int_overflows (Quantity tx))"
    using assms validate_and_filter_raises [of raw region lo hi] by auto
  have "set txs \<subseteq> set (filter (\<lambda>tx. \<not> is_invalid tx) raw)"
    using assms unfolding validate_and_filter_returns [OF no]
    by (auto simp: Let_def split: option.splits if_splits)
  then show ?thesis using no by (auto simp: is_invalid_def)
qed

text \<open>
  Claim C10. If every transaction has a positive quantity, as after validation, the list
  of low performing products that \<^verbatim>\<open>generate_sales_report\<close> computes is empty and the
  line of the report reads \<^verbatim>\<open>Low Performing Products: None\<close>, whatever
  \<^verbatim>\<open>low_performing_products\<close> returns for a threshold. The one exception is a
  quantity beyond the range of the floats, with which the loops of the report raise
  \<^verbatim>\<open>OverflowError\<close>; no list that passed validation has one.
\<close>

theorem report_low_products_empty:
  assumes "\<forall>tx \<in> set txs. 0 < Quantity tx"
  shows "(if \<exists>tx \<in> set txs. int_overflows (Quantity tx)
          then report_low_products txs = Inl OverflowError
               \<and> report_low_products_line txs = Inl OverflowError
          else report_low_products txs = Inr []
               \<and> report_low_products_line txs =
                   Inr (ustr ''Low Performing Products: None'' @ newline))"
proof (cases "\<exists>tx \<in> set txs. int_overflows (Quantity tx)")
  case True
  then show ?thesis
    by (simp add: report_low_products_line_def report_low_products_def
        report_product_sales_char)
next
  case False
  have "0 < sum_list (map Quantity (filter (\<lambda>tx. ProductName tx = p) txs))"
    if "p \<in> set (map ProductName txs)" for p
    using filter_key_nonempty [OF that] assms by (intro sum_list_pos_nonempty) auto
  then have "report_low_products txs = Inr []"
    using False
    by (fastforce simp: report_low_products_def report_product_sales_char filter_empty_conv)
  then show ?thesis using False by (simp add: report_low_products_line_def ustr_def)
qed

lemma product_totals_examples:
  "product_totals [sale_mouse, sale_kb] =
     Inr [(ustr ''Mouse'', \<lparr>total_qty = 2, total_revenue = Fin 1000\<rparr>),
          (ustr ''KB'', \<lparr>total_qty = 1, total_revenue = Fin 100\<rparr>)]"
  by code_simp

theorem report_low_products_empty_witness:
  "0 < Quantity sale_mouse \<and> 0 < Quantity sale_kb
   \<and> report_low_products [sale_mouse, sale_kb] = Inr []
   \<and> report_low_products_line [sale_mouse, sale_kb] =
       Inr (ustr ''Low Performing Products: None'' @ newline)
   \<and> low_performing_products_default [sale_mouse, sale_kb] =
       Inr [(ustr ''KB'', 1, Fin 100), (ustr ''Mouse'', 2, Fin 1000)]"
proof -
  have q: "Quantity sale_mouse = 2" "Quantity sale_kb = 1"
    by (simp_all add: sale_mouse_def sale_kb_def)
  have low: "low_performing_products_default [sale_mouse, sale_kb] =
       Inr [(ustr ''KB'', 1, Fin 100), (ustr ''Mouse'', 2, Fin 1000)]"
    by (simp add: low_performing_products_default_def low_performing_products_def
        product_totals_examples)
  show ?thesis
    using report_low_products_empty [of "[sale_mouse, sale_kb]"] low
    by (simp add: q not_int_overflows_examples)
qed

section \<open>Top selling products\<close>

lemma slice_to_nonneg: "0 \<le> n \<Longrightarrow> slice_to xs n = take (nat n) xs"
  by (simp add: slice_to_def)

lemma distinct_map_insort_desc:
  "distinct (map f (insort_desc key x ys)) \<longleftrightarrow> distinct (map f (x # ys))"
  by (induction ys) auto

lemma distinct_map_sort_desc: "distinct (map f (sort_desc key xs)) \<longleftrightarrow> distinct (map f xs)"
  by (induction xs) (simp_all add: sort_desc_Cons distinct_map_insort_desc)

text \<open>
  The ranking of the products by quantity: all products, each once, with the sum of its
  quantities and the float sum, in input order, of its amounts, in descending order of
  total quantity and, among equal quantities, in the order in which the names first occur
  in the input. These conditions determine the list.
\<close>

lemma product_ranking:
  fixes txs :: "'a transaction_scheme list"
  defines "ranking \<equiv> map (\<lambda>(product, stats). (product, total_qty stats, total_revenue stats))
             (sort_desc (\<lambda>(product, stats). total_qty stats)
               (map (\<lambda>p. (p,
                  \<lparr>total_qty = sum_list (map Quantity (filter (\<lambda>tx. ProductName tx = p) txs)),
                   total_revenue =
                     float_sum (map amount_value (filter (\<lambda>tx. ProductName tx = p) txs))\<rparr>))
                 (first_seen (map ProductName txs))))"
  shows "length ranking = card (ProductName ` set txs)"
    and "distinct (map fst ranking)"
    and "fst ` set ranking = ProductName ` set txs"
    and "\<forall>(p, q, r) \<in> set ranking.
           q = sum_list (map Quantity (filter (\<lambda>tx. ProductName tx = p) txs))
           \<and> r = float_sum (map amount_value (filter (\<lambda>tx. ProductName tx = p) txs))"
    and "sorted_wrt (\<lambda>(p, q, r) (p', q', r').
           q' < q \<or> (q = q' \<and> first_index (map ProductName txs) p
                                  < first_index (map ProductName txs) p')) ranking"
proof -
  let ?names = "map ProductName txs"
  let ?S = "\<lambda>a b. first_index ?names (fst a) < first_index ?names (fst b)"
  let ?key = "\<lambda>(product, stats). total_qty stats"
  let ?h = "\<lambda>(product, stats). (product, total_qty stats, total_revenue stats)"
  let ?stats = "map (\<lambda>p. (p,
                  \<lparr>total_qty = sum_list (map Quantity (filter (\<lambda>tx. ProductName tx = p) txs)),
                   total_revenue =
                     float_sum (map amount_value (filter (\<lambda>tx. ProductName tx = p) txs))\<rparr>))
                 (first_seen ?names)"
  let ?sorted = "sort_desc ?key ?stats"
  have r: "ranking = map ?h ?sorted" by (simp add: ranking_def)
  show "length ranking = card (ProductName ` set txs)"
    by (simp add: r length_first_seen)
  have fst_h: "map fst (map ?h xs) = map fst xs" for xs :: "(pystr \<times> product_stat) list"
    by (induction xs) auto
  have "distinct (map fst ?stats)" by (simp add: comp_def)
  then have "distinct (map fst ?sorted)"
    by (simp only: distinct_map_sort_desc)
  then show "distinct (map fst ranking)" by (simp only: r fst_h)
  have "set (map fst ranking) = set (map fst ?sorted)" by (simp only: r fst_h)
  then show "fst ` set ranking = ProductName ` set txs"
    by (simp add: image_image)
  show "\<forall>(p, q, r) \<in> set ranking.
           q = sum_list (map Quantity (filter (\<lambda>tx. ProductName tx = p) txs))
           \<and> r = float_sum (map amount_value (filter (\<lambda>tx. ProductName tx = p) txs))"
    by (auto simp: r)
  have "sorted_wrt ?S ?stats"
    using sorted_wrt_first_seen [of ?names]
    by (simp add: sorted_wrt_map)
  then have "sorted_wrt (\<lambda>a b. ?key b < ?key a \<or> (?key a = ?key b \<and> ?S a b)) ?sorted"
    by (rule sorted_wrt_sort_desc_lex)
  then show "sorted_wrt (\<lambda>(p, q, r) (p', q', r').
          q' < q \<or> (q = q' \<and> first_index ?names p < first_index ?names p')) ranking"
    unfolding r sorted_wrt_map
    by (rule sorted_wrt_mono_rel [rotated]) (auto simp: split_def)
qed

text \<open>
  Claim C7. For every transaction list whose quantities are within the range of the floats
  and every \<open>N \<ge> 0\<close>, \<^verbatim>\<open>top_selling_products\<close> returns the first \<open>N\<close> triples of
  the ranking of the products by quantity, which are \<open>min N d\<close> triples, where \<open>d\<close> is
  the number of distinct product names. In the ranking every product name of the input
  occurs once, with the sum of its quantities and the float sum, in input order, of its
  amounts; the triples are in descending order of total quantity and, among equal
  quantities, in the order in which the names first occur in the input. The default for
  \<open>N\<close> is 5.
\<close>

theorem top_selling_products_ranking:
  assumes "0 \<le> n" and "\<forall>tx \<in> set txs. \<not> int_overflows (Quantity tx)"
  shows "\<exists>ranking.
      top_selling_products txs n = Inr (take (nat n) ranking)
    \<and> length (take (nat n) ranking) = min (nat n) (card (ProductName ` set txs))
    \<and> length ranking = card (ProductName ` set txs)
    \<and> distinct (map fst ranking)
    \<and> fst ` set ranking = ProductName ` set txs
    \<and> (\<forall>(p, q, r) \<in> set ranking.
          q = sum_list (map Quantity (filter (\<lambda>tx. ProductName tx = p) txs))
          \<and> r = float_sum (map amount_value (filter (\<lambda>tx. ProductName tx = p) txs)))
    \<and> sorted_wrt (\<lambda>(p, q, r) (p', q', r').
          q' < q \<or> (q = q' \<and> first_index (map ProductName txs) p
                                  < first_index (map ProductName txs) p')) ranking
    \<and> top_selling_products_default txs = top_selling_products txs 5"
proof -
  let ?ranking = "map (\<lambda>(product, stats). (product, total_qty stats, total_revenue stats))
             (sort_desc (\<lambda>(product, stats). total_qty stats)
               (map (\<lambda>p. (p,
                  \<lparr>total_qty = sum_list (map Quantity (filter (\<lambda>tx. ProductName tx = p) txs)),
                   total_revenue =
                     float_sum (map amount_value (filter (\<lambda>tx. ProductName tx = p) txs))\<rparr>))
                 (first_seen (map ProductName txs))))"
  have res: "top_selling_products txs n = Inr (take (nat n) ?ranking)"
    using assms by (simp add: top_selling_products_def product_totals_char slice_to_nonneg
        take_map)
  have len: "length (take (nat n) ?ranking) = min (nat n) (card (ProductName ` set txs))"
    by (simp add: length_first_seen min.commute)
  show ?thesis
    using res len product_ranking [of txs]
    by (intro exI [of _ ?ranking]) (simp add: top_selling_products_default_def)
qed

lemma ranking_example_top:
  "top_selling_products ranking_example 2 =
     Inr [(ustr ''Mouse'', 4, Fin 2000), (ustr ''KB'', 1, Fin 100)]"
  "top_selling_products ranking_example 3 =
     Inr [(ustr ''Mouse'', 4, Fin 2000), (ustr ''KB'', 1, Fin 100), (ustr ''Pad'', 1, Fin 100)]"
  by code_simp+

lemma ranking_example_names: "card (ProductName ` set ranking_example) = 3"
  by code_simp

theorem top_selling_products_ranking_witness:
  "(0::int) \<le> 2
   \<and> \<not> int_overflows (Quantity sale_kb) \<and> \<not> int_overflows (Quantity sale_mouse)
   \<and> top_selling_products ranking_example 2 =
       Inr (take (nat 2)
         [(ustr ''Mouse'', 4, Fin 2000), (ustr ''KB'', 1, Fin 100), (ustr ''Pad'', 1, Fin 100)])
   \<and> top_selling_products ranking_example 3 =
       Inr [(ustr ''Mouse'', 4, Fin 2000), (ustr ''KB'', 1, Fin 100), (ustr ''Pad'', 1, Fin 100)]
   \<and> card (ProductName ` set ranking_example) = 3
   \<and> first_index (map ProductName ranking_example) (ustr ''KB'') = 0
   \<and> first_index (map ProductName ranking_example) (ustr ''Pad'') = 2"
proof -
  have fi: "first_index (map ProductName ranking_example) (ustr ''KB'') = 0"
    "first_index (map ProductName ranking_example) (ustr ''Pad'') = 2"
    by (simp_all add: first_index_def ranking_example_def sale_kb_def sale_mouse_def)
  have q: "Quantity sale_mouse = 2" "Quantity sale_kb = 1"
    by (simp_all add: sale_mouse_def sale_kb_def)
  have no: "\<forall>tx \<in> set ranking_example. \<not> int_overflows (Quantity tx)"
    by (simp add: ranking_example_def q not_int_overflows_examples)
  show ?thesis
    using top_selling_products_ranking [of 2 ranking_example, OF _ no] fi
    by (simp add: ranking_example_top ranking_example_names q not_int_overflows_examples)
qed

text \<open>
  A negative \<open>N\<close> is not a count: the slice \<^verbatim>\<open>sorted_products[:-1]\<close> drops the last
  product of the ranking.
\<close>

lemma top_selling_products_negative_n_example:
  "top_selling_products [sale_mouse, sale_kb] (- 1) = Inr [(ustr ''Mouse'', 2, Fin 1000)]"
  by (simp add: top_selling_products_def product_totals_examples slice_to_def
      sort_desc_def)

text \<open>A quantity beyond the range of the floats: the product in the loop raises.\<close>

lemma top_selling_products_overflow:
  "\<exists>tx \<in> set txs. int_overflows (Quantity tx)
     \<Longrightarrow> top_selling_products txs n = Inl OverflowError"
  by (simp add: top_selling_products_def product_totals_char)

section \<open>Floats that are not negative\<close>

lemma fle_zero_iff: "fle (Fin 0) a \<longleftrightarrow> a = PInf \<or> (\<exists>x\<ge>0. a = Fin x)"
  by (cases a) (simp_all add: fle_def)

lemma flt_zero_iff: "flt (Fin 0) a \<longleftrightarrow> a = PInf \<or> (\<exists>x>0. a = Fin x)"
  by (cases a) (simp_all add: flt_def)

lemma fle_zero_rnd: "0 \<le> x \<Longrightarrow> fle (Fin 0) (rnd x)"
  using round_nearest_nonneg [of x]
  by (auto simp: rnd_def Let_def fle_zero_iff exceeds_float_range_def)

lemma fle_zero_fadd:
  assumes "fle (Fin 0) a" and "fle (Fin 0) b"
  shows "fle (Fin 0) (fadd a b)"
proof -
  have a: "a = PInf \<or> (\<exists>x\<ge>0. a = Fin x)" using assms(1) by (simp only: fle_zero_iff)
  have b: "b = PInf \<or> (\<exists>y\<ge>0. b = Fin y)" using assms(2) by (simp only: fle_zero_iff)
  show ?thesis
  proof (cases "a = PInf \<or> b = PInf")
    case True
    then show ?thesis using a b by (auto simp: fle_def)
  next
    case False
    then obtain x y where xy: "a = Fin x" "0 \<le> x" "b = Fin y" "0 \<le> y"
      using a b by auto
    then have "0 \<le> x + y" by simp
    then show ?thesis by (simp add: xy fle_zero_rnd)
  qed
qed

lemma fle_zero_foldl:
  "fle (Fin 0) s \<Longrightarrow> \<forall>a \<in> set xs. fle (Fin 0) a \<Longrightarrow> fle (Fin 0) (foldl fadd s xs)"
  by (induction xs arbitrary: s) (simp_all add: fle_zero_fadd)

lemma fle_zero_float_sum: "\<forall>a \<in> set xs. fle (Fin 0) a \<Longrightarrow> fle (Fin 0) (float_sum xs)"
  unfolding float_sum_def by (rule fle_zero_foldl) (simp_all add: fle_def)

lemma round_nearest_pos_int:
  assumes "0 < n"
  shows "1 \<le> round_nearest (of_int n)"
proof -
  define x where "x = rat_of_int n"
  have x1: "1 \<le> x" using assms by (simp add: x_def)
  then have x0: "x \<noteq> 0" by simp
  have "(2::rat) powi 0 \<le> \<bar>x\<bar>" using x1 by simp
  then have il: "0 \<le> ilog2 x" using ilog2_ge_iff [OF x0] by simp
  then have "(2::rat) powi 0 \<le> 2 powi (ilog2 x)" by (rule pw_mono)
  also have "\<dots> \<le> \<bar>round_nearest x\<bar>" using x0 il by (intro round_nearest_ge_pow) simp_all
  finally have "1 \<le> \<bar>round_nearest x\<bar>" by simp
  moreover have "0 \<le> round_nearest x" using x1 by (intro round_nearest_nonneg) simp
  ultimately show ?thesis by (simp add: x_def)
qed

text \<open>A positive quantity at a price greater than zero gives an amount that is not negative.\<close>

lemma amount_value_nonneg:
  assumes "0 < Quantity tx" and "flt (Fin 0) (UnitPrice tx)"
  shows "fle (Fin 0) (amount_value tx)"
proof -
  have q: "1 \<le> round_nearest (of_int (Quantity tx))"
    using assms(1) by (rule round_nearest_pos_int)
  show ?thesis
  proof (cases "UnitPrice tx = PInf")
    case True
    then show ?thesis using q by (simp add: amount_value_def fle_zero_iff)
  next
    case False
    then obtain p where p: "UnitPrice tx = Fin p" "0 < p"
      using assms(2) by (auto simp: flt_zero_iff)
    have "0 \<le> round_nearest (of_int (Quantity tx)) * p" using q p(2) by simp
    then show ?thesis by (simp add: amount_value_def p(1) fle_zero_rnd)
  qed
qed

section \<open>The top products table of the report\<close>

lemma card_names_le_length: "card (f ` set xs) \<le> length xs"
  by (metis card_length length_map list.set_map)

lemma set_product_ranking:
  fixes txs :: "'a transaction_scheme list"
  shows "set (map (\<lambda>(product, stats). (product, total_qty stats, total_revenue stats))
             (sort_desc (\<lambda>(product, stats). total_qty stats)
               (map (\<lambda>p. (p,
                  \<lparr>total_qty = sum_list (map Quantity (filter (\<lambda>tx. ProductName tx = p) txs)),
                   total_revenue =
                     float_sum (map amount_value (filter (\<lambda>tx. ProductName tx = p) txs))\<rparr>))
                 (first_seen (map ProductName txs))))) =
         (\<lambda>p. (p, sum_list (map Quantity (filter (\<lambda>tx. ProductName tx = p) txs)),
                 float_sum (map amount_value (filter (\<lambda>tx. ProductName tx = p) txs))))
           ` ProductName ` set txs"
  by (auto simp: image_iff)

text \<open>
  With all of its products asked for, \<^verbatim>\<open>top_selling_products\<close> returns its whole
  ranking.
\<close>

lemma top_selling_products_all:
  assumes "\<forall>tx \<in> set txs. \<not> int_overflows (Quantity tx)"
  shows "top_selling_products txs (int (length txs)) =
     Inr (map (\<lambda>(product, stats). (product, total_qty stats, total_revenue stats))
             (sort_desc (\<lambda>(product, stats). total_qty stats)
               (map (\<lambda>p. (p,
                  \<lparr>total_qty = sum_list (map Quantity (filter (\<lambda>tx. ProductName tx = p) txs)),
                   total_revenue =
                     float_sum (map amount_value (filter (\<lambda>tx. ProductName tx = p) txs))\<rparr>))
                 (first_seen (map ProductName txs)))))"
proof -
  have "length (first_seen (map ProductName txs)) \<le> length txs"
    using card_names_le_length [of ProductName txs] by (simp add: length_first_seen)
  then show ?thesis
    using assms by (simp add: top_selling_products_def product_totals_char slice_to_def)
qed

text \<open>
  Claim C3, as stated, fails: the report ranks by revenue (the counterexample below).
  Amended: for every list of transactions with positive quantities within the range of the
  floats and unit prices greater than zero, the top-5 products table of
  \<^verbatim>\<open>generate_sales_report\<close> lists the first five triples of the ranking of the products
  by revenue. That ranking holds the same triples as the complete ranking of
  \<^verbatim>\<open>top_selling_products\<close>: every product name of the input once, with the sum of its
  quantities and the float sum, in input order, of its amounts, which is not \<^verbatim>\<open>nan\<close>.
  It is in descending order of total revenue and, among equal revenues, in the order in
  which the names first occur in the input.
\<close>

theorem report_top_products_by_revenue:
  assumes "\<forall>tx \<in> set txs. 0 < Quantity tx \<and> \<not> int_overflows (Quantity tx)
                            \<and> flt (Fin 0) (UnitPrice tx)"
  shows "\<exists>ranking engine.
      report_top_products txs = Some (Inr (take 5 ranking))
    \<and> length (take 5 ranking) = min 5 (card (ProductName ` set txs))
    \<and> top_selling_products txs (int (length txs)) = Inr engine
    \<and> set ranking = set engine
    \<and> length ranking = card (ProductName ` set txs)
    \<and> distinct (map fst ranking)
    \<and> fst ` set ranking = ProductName ` set txs
    \<and> (\<forall>(p, q, r) \<in> set ranking.
          q = sum_list (map Quantity (filter (\<lambda>tx. ProductName tx = p) txs))
          \<and> r = float_sum (map amount_value (filter (\<lambda>tx. ProductName tx = p) txs))
          \<and> r \<noteq> NaN)
    \<and> sorted_wrt (\<lambda>(p, q, r) (p', q', r').
          flt r' r \<or> (r = r' \<and> first_index (map ProductName txs) p
                                   < first_index (map ProductName txs) p')) ranking"
proof -
  let ?names = "map ProductName txs"
  let ?Q = "\<lambda>p. sum_list (map Quantity (filter (\<lambda>tx. ProductName tx = p) txs))"
  let ?R = "\<lambda>p. float_sum (map amount_value (filter (\<lambda>tx. ProductName tx = p) txs))"
  let ?S = "\<lambda>a b. first_index ?names (fst a) < first_index ?names (fst b)"
  let ?key = "\<lambda>(pname, qty, rev). rev :: pyfloat"
  let ?sales = "map (\<lambda>p. (p, ?Q p, ?R p)) (first_seen ?names)"
  let ?ranking = "sort_desc (\<lambda>x. float_rank (?key x)) ?sales"
  let ?engine = "map (\<lambda>(product, stats). (product, total_qty stats, total_revenue stats))
             (sort_desc (\<lambda>(product, stats). total_qty stats)
               (map (\<lambda>p. (p, \<lparr>total_qty = ?Q p, total_revenue = ?R p\<rparr>)) (first_seen ?names)))"
  have no: "\<forall>tx \<in> set txs. \<not> int_overflows (Quantity tx)" using assms by simp
  have sales: "report_product_sales txs = Inr ?sales"
    using no by (simp add: report_product_sales_char)
  have nonneg: "fle (Fin 0) (?R p)" for p
    using assms by (intro fle_zero_float_sum) (auto intro: amount_value_nonneg)
  have nn: "?R p \<noteq> NaN" for p
    using nonneg [of p] by (auto simp: fle_def)
  have nokey: "\<forall>x \<in> set ?sales. ?key x \<noteq> NaN" using nn by auto
  have srt: "sorted_wrt ?S ?sales"
    using sorted_wrt_first_seen [of ?names] by (simp add: sorted_wrt_map)
  have some: "sorted_reverse_float ?key ?sales = Some ?ranking"
    using nokey srt by (rule sorted_reverse_float_Some(1))
  have res: "report_top_products txs = Some (Inr (take 5 ?ranking))"
    by (simp add: report_top_products_def sales some slice_to_def)
  have len: "length ?ranking = card (ProductName ` set txs)"
    by (simp add: length_first_seen)
  have len5: "length (take 5 ?ranking) = min 5 (card (ProductName ` set txs))"
    by (simp add: length_first_seen min.commute)
  have eng: "top_selling_products txs (int (length txs)) = Inr ?engine"
    using no by (rule top_selling_products_all)
  have sets: "set ?ranking = set ?engine"
    unfolding set_product_ranking by (auto simp: image_iff)
  have "distinct (map fst ?sales)" by (simp add: comp_def)
  then have dist: "distinct (map fst ?ranking)"
    by (simp only: distinct_map_sort_desc)
  have names: "fst ` set ?ranking = ProductName ` set txs"
    by (simp add: image_image)
  have elems: "\<forall>(p, q, r) \<in> set ?ranking. q = ?Q p \<and> r = ?R p \<and> r \<noteq> NaN"
    using nn by auto
  have "sorted_wrt (\<lambda>a b. flt (?key b) (?key a) \<or> (?key a = ?key b \<and> ?S a b)) ?ranking"
    using nokey srt by (rule sorted_reverse_float_Some(2))
  then have ord: "sorted_wrt (\<lambda>(p, q, r) (p', q', r').
          flt r' r \<or> (r = r' \<and> first_index ?names p < first_index ?names p')) ?ranking"
    by (rule sorted_wrt_mono_rel [rotated]) (auto simp: split_def)
  show ?thesis
    using res len5 eng sets len dist names elems ord
    by (intro exI [of _ ?ranking] exI [of _ ?engine]) (simp only: simp_thms)
qed

lemma revenue_example_values:
  "report_top_products revenue_example =
     Some (Inr [(ustr ''Mouse'', 2, Fin 1000), (ustr ''KB'', 5, Fin 500)])"
  "top_selling_products revenue_example 5 =
     Inr [(ustr ''KB'', 5, Fin 500), (ustr ''Mouse'', 2, Fin 1000)]"
  by code_simp+

lemma six_products_example_values:
  "report_top_products six_products_example =
     Some (Inr [(ustr ''F'', 1, Fin 900), (ustr ''A'', 6, Fin 600), (ustr ''E'', 1, Fin 500),
                (ustr ''B'', 2, Fin 400), (ustr ''D'', 3, Fin 300)])"
  "top_selling_products six_products_example 7 =
     Inr [(ustr ''C'', 20, Fin 200), (ustr ''A'', 6, Fin 600), (ustr ''D'', 3, Fin 300),
          (ustr ''B'', 2, Fin 400), (ustr ''E'', 1, Fin 500), (ustr ''F'', 1, Fin 900)]"
  by code_simp+

lemma six_products_example_names: "card (ProductName ` set six_products_example) = 6"
  by code_simp


lemma top_selling_products_take:
  assumes "0 \<le> n" and "n \<le> m" and "top_selling_products txs m = Inr ranking"
  shows "top_selling_products txs n = Inr (take (nat n) ranking)"
proof -
  have "min (nat n) (nat m) = nat n" using assms(1,2) by simp
  then show ?thesis
    using assms
    by (auto simp: top_selling_products_def slice_to_def take_map split: sum.splits)
qed

text \<open>
  Mouse sold 2 at 500 and KB sold 5 at 100, two valid transactions: the report lists
  Mouse before KB, and \<^verbatim>\<open>top_selling_products\<close> with \<open>N = 5\<close> lists KB before Mouse.
\<close>

theorem report_top_products_counterexample:
  "\<not> is_invalid sale_mouse \<and> \<not> is_invalid (sale_kb\<lparr>Quantity := 5\<rparr>)
   \<and> report_top_products revenue_example =
       Some (Inr [(ustr ''Mouse'', 2, Fin 1000), (ustr ''KB'', 5, Fin 500)])
   \<and> top_selling_products revenue_example 5 =
       Inr [(ustr ''KB'', 5, Fin 500), (ustr ''Mouse'', 2, Fin 1000)]
   \<and> [ustr ''Mouse'', ustr ''KB''] \<noteq> [ustr ''KB'', ustr ''Mouse'']"
proof -
  have "\<not> is_invalid (sale_kb\<lparr>Quantity := 5\<rparr>)"
    by (simp add: is_invalid_def sale_kb_def fle_def)
  then show ?thesis
    by (simp add: revenue_example_values is_invalid_examples)
qed

text \<open>
  Six products: the table of the report holds the five with the largest revenue, F, A, E,
  B and D, and leaves out C, which \<^verbatim>\<open>top_selling_products\<close> ranks first.
\<close>

theorem report_top_products_by_revenue_witness:
  "0 < Quantity (sale_of ''C'' 20 10) \<and> \<not> int_overflows (Quantity (sale_of ''C'' 20 10))
   \<and> flt (Fin 0) (UnitPrice (sale_of ''C'' 20 10))
   \<and> report_top_products six_products_example =
       Some (Inr [(ustr ''F'', 1, Fin 900), (ustr ''A'', 6, Fin 600), (ustr ''E'', 1, Fin 500),
                  (ustr ''B'', 2, Fin 400), (ustr ''D'', 3, Fin 300)])
   \<and> top_selling_products six_products_example (int (length six_products_example)) =
       Inr [(ustr ''C'', 20, Fin 200), (ustr ''A'', 6, Fin 600), (ustr ''D'', 3, Fin 300),
            (ustr ''B'', 2, Fin 400), (ustr ''E'', 1, Fin 500), (ustr ''F'', 1, Fin 900)]
   \<and> top_selling_products six_products_example 5 =
       Inr [(ustr ''C'', 20, Fin 200), (ustr ''A'', 6, Fin 600), (ustr ''D'', 3, Fin 300),
            (ustr ''B'', 2, Fin 400), (ustr ''E'', 1, Fin 500)]
   \<and> min 5 (card (ProductName ` set six_products_example)) = 5"
proof -
  have ok: "0 < Quantity (sale_of name q p) \<and> \<not> int_overflows (Quantity (sale_of name q p))
            \<and> flt (Fin 0) (UnitPrice (sale_of name q p))"
    if "0 < q" "q < 2 ^ 53" "0 < p" for name q p
    using that by (simp add: sale_of_def not_int_overflows_small)
  have hyp: "\<forall>tx \<in> set six_products_example.
               0 < Quantity tx \<and> \<not> int_overflows (Quantity tx) \<and> flt (Fin 0) (UnitPrice tx)"
    unfolding six_products_example_def by (simp add: ok)
  have len: "int (length six_products_example) = 7"
    by (simp add: six_products_example_def)
  have five: "top_selling_products six_products_example 5 =
       Inr (take (nat 5)
         [(ustr ''C'', 20, Fin 200), (ustr ''A'', 6, Fin 600), (ustr ''D'', 3, Fin 300),
          (ustr ''B'', 2, Fin 400), (ustr ''E'', 1, Fin 500), (ustr ''F'', 1, Fin 900)])"
    by (rule top_selling_products_take [OF _ _ six_products_example_values(2)]) simp_all
  show ?thesis
    using report_top_products_by_revenue [OF hyp] ok [of 20 10 "''C''"] five
    by (simp add: six_products_example_values six_products_example_names len)
qed

end
